theory Spec2Isabelle
  imports Main "HOL-Library.AList" "HOL-Library.Sublist" "HOL-Library.Word"
begin

section \<open>Go string helpers\<close>

text \<open>
  Go strings are modelled as \<open>string\<close> (a list of characters). \<open>strings.Contains s sub\<close>
  is the contiguous-substring test, \<open>strings.Index\<close> finds the leftmost occurrence.
\<close>

definition Contains :: "string \<Rightarrow> string \<Rightarrow> bool" where
  "Contains s substr = sublist substr s"

text \<open>
  \<open>cut_first sep s\<close> splits \<open>s\<close> around the leftmost occurrence of \<open>sep\<close>
  (what \<open>strings.Index\<close> followed by slicing gives); \<open>None\<close> when \<open>sep\<close> does not occur.
\<close>

fun cut_first :: "string \<Rightarrow> string \<Rightarrow> (string \<times> string) option" where
  "cut_first sep [] = (if sep = [] then Some ([], []) else None)"
| "cut_first sep (c # cs) =
     (if prefix sep (c # cs) then Some ([], drop (length sep) (c # cs))
      else (case cut_first sep cs of
              None \<Rightarrow> None
            | Some (a, b) \<Rightarrow> Some (c # a, b)))"

text \<open>\<open>strings.SplitN(s, sep, 2)\<close> for a non-empty separator.\<close>

definition SplitN2 :: "string \<Rightarrow> string \<Rightarrow> string list" where
  "SplitN2 s sep = (case cut_first sep s of None \<Rightarrow> [s] | Some (a, b) \<Rightarrow> [a, b])"

subsection \<open>Lower-casing\<close>

text \<open>
  \<open>strings.ToLower\<close> belongs to the Go standard library. The functions that call it take
  it as the parameter \<open>lower\<close>; \<open>ascii_lower\<close> is what it computes on ASCII text and is
  used to run the functions on concrete ASCII inputs.
\<close>

definition lower_char :: "char \<Rightarrow> char" where
  "lower_char c =
     (case map_of (zip ''ABCDEFGHIJKLMNOPQRSTUVWXYZ'' ''abcdefghijklmnopqrstuvwxyz'') c of
        None \<Rightarrow> c
      | Some d \<Rightarrow> d)"

definition ascii_lower :: "string \<Rightarrow> string" where
  "ascii_lower s = map lower_char s"

subsection \<open>Splitting and trimming\<close>

text \<open>\<open>strings.Split(s, sep)\<close> for a separator \<open>sep\<close> of one character \<open>c\<close>.\<close>

fun split_on :: "char \<Rightarrow> string \<Rightarrow> string list" where
  "split_on c [] = [[]]"
| "split_on c (x # xs) =
     (if x = c then [] # split_on c xs
      else (case split_on c xs of
              [] \<Rightarrow> [[x]]
            | p # ps \<Rightarrow> (x # p) # ps))"

text \<open>\<open>strings.Trim(s, cutset)\<close>.\<close>

definition Trim :: "string \<Rightarrow> string \<Rightarrow> string" where
  "Trim s cutset =
     rev (dropWhile (\<lambda>c. c \<in> set cutset) (rev (dropWhile (\<lambda>c. c \<in> set cutset) s)))"

subsection \<open>Formatting integers\<close>

text \<open>The verb \<open>%d\<close> of \<open>fmt.Sprintf\<close>: decimal digits, with a minus sign when negative.\<close>

definition digit_char :: "nat \<Rightarrow> char" where
  "digit_char n = ''0123456789'' ! n"

function show_nat :: "nat \<Rightarrow> string" where
  "show_nat n = (if n < 10 then [digit_char n] else show_nat (n div 10) @ [digit_char (n mod 10)])"
  by pat_completeness auto
termination
  by (relation "measure id") auto

declare show_nat.simps [simp del]

definition show_int :: "int \<Rightarrow> string" where
  "show_int i = (if i < 0 then CHR ''-'' # show_nat (nat (- i)) else show_nat (nat i))"

text \<open>Go's integer division truncates toward zero.\<close>

definition go_quot :: "int \<Rightarrow> int \<Rightarrow> int" where
  "go_quot a b = sgn a * sgn b * (\<bar>a\<bar> div \<bar>b\<bar>)"

section \<open>MCP client manager (pkg/mcp/client.go, pkg/tools/mcp.go)\<close>

record 'j MCPToolDef =
  tool_Name :: string
  tool_Description :: string
  tool_InputSchema :: 'j

record 'j MCPServerConfig =
  cfg_Name :: string
  cfg_Command :: string
  cfg_Args :: "string list"
  cfg_URL :: string
  cfg_WorkspaceAllowList :: "string list"
  cfg_WorkspaceDenyList :: "string list"
  cfg_ToolAllowList :: "string list"
  cfg_ToolDenyList :: "string list"

record 'j MCPServer =
  srv_Name :: string
  srv_Command :: string
  srv_Args :: "string list"
  srv_URL :: string
  Connected :: bool
  Tools :: "'j MCPToolDef list"
  WorkspaceAllowList :: "string list"
  WorkspaceDenyList :: "string list"
  ToolAllowList :: "string list"
  ToolDenyList :: "string list"

text \<open>
  \<open>MCPManager.Servers\<close> is a Go map from server name to server. It is modelled as an
  association list: the order of the list is the order in which one \<open>range\<close> over the map
  visits the entries (Go leaves that order unspecified), and the keys of a map are distinct.
\<close>

type_synonym 'j MCPManager = "(string \<times> 'j MCPServer) list"

definition NewManager :: "'j MCPManager" where
  "NewManager = []"

definition AddServer :: "'j MCPManager \<Rightarrow> 'j MCPServerConfig \<Rightarrow> 'j MCPManager" where
  "AddServer m config =
     AList.update (cfg_Name config)
       \<lparr> srv_Name = cfg_Name config,
         srv_Command = cfg_Command config,
         srv_Args = cfg_Args config,
         srv_URL = cfg_URL config,
         Connected = True,
         Tools = [],
         WorkspaceAllowList = cfg_WorkspaceAllowList config,
         WorkspaceDenyList = cfg_WorkspaceDenyList config,
         ToolAllowList = cfg_ToolAllowList config,
         ToolDenyList = cfg_ToolDenyList config \<rparr> m"

definition RemoveServer :: "'j MCPManager \<Rightarrow> string \<Rightarrow> 'j MCPManager" where
  "RemoveServer m name = AList.delete name m"

definition isWorkspaceAllowed :: "'j MCPServer \<Rightarrow> string \<Rightarrow> bool" where
  "isWorkspaceAllowed s workspace =
     (if length (WorkspaceAllowList s) > 0
      then (if workspace \<in> set (WorkspaceAllowList s) then True else False)
      else (if workspace \<in> set (WorkspaceDenyList s) then False else True))"

definition isToolAllowed :: "'j MCPServer \<Rightarrow> string \<Rightarrow> bool" where
  "isToolAllowed s toolName =
     (if length (ToolAllowList s) > 0
      then (if toolName \<in> set (ToolAllowList s) then True else False)
      else (if toolName \<in> set (ToolDenyList s) then False else True))"

text \<open>The inner loop of \<open>GetAllTools\<close> and \<open>GetToolsForWorkspace\<close> over \<open>server.Tools\<close>.\<close>

fun emit_tools :: "'j MCPServer \<Rightarrow> 'j MCPToolDef list \<Rightarrow> 'j MCPToolDef list" where
  "emit_tools server [] = []"
| "emit_tools server (tool # rest) =
     (if isToolAllowed server (tool_Name tool)
      then \<lparr> tool_Name = srv_Name server @ ''__'' @ tool_Name tool,
             tool_Description = tool_Description tool,
             tool_InputSchema = tool_InputSchema tool \<rparr> # emit_tools server rest
      else emit_tools server rest)"

fun GetAllTools :: "'j MCPManager \<Rightarrow> 'j MCPToolDef list" where
  "GetAllTools [] = []"
| "GetAllTools ((name, server) # rest) =
     (if \<not> Connected server then GetAllTools rest
      else emit_tools server (Tools server) @ GetAllTools rest)"

fun GetToolsForWorkspace :: "'j MCPManager \<Rightarrow> string \<Rightarrow> 'j MCPToolDef list" where
  "GetToolsForWorkspace [] workspace = []"
| "GetToolsForWorkspace ((name, server) # rest) workspace =
     (if \<not> Connected server then GetToolsForWorkspace rest workspace
      else if \<not> isWorkspaceAllowed server workspace then GetToolsForWorkspace rest workspace
      else emit_tools server (Tools server) @ GetToolsForWorkspace rest workspace)"

text \<open>
  The routing step of \<open>MCPTool.Execute\<close>: the emitted name is split at the first
  \<open>"__"\<close>; anything but two parts is the error "invalid MCP tool name format".
\<close>

definition Execute_route :: "string \<Rightarrow> (string \<times> string) option" where
  "Execute_route name =
     (case SplitN2 name ''__'' of
        [serverName, origToolName] \<Rightarrow> Some (serverName, origToolName)
      | _ \<Rightarrow> None)"

text \<open>
  The allow/deny rule in the words of the specification: a non-empty allow-list is
  authoritative and the deny-list is then ignored; otherwise the deny-list is applied.
\<close>

definition passes_lists :: "string list \<Rightarrow> string list \<Rightarrow> string \<Rightarrow> bool" where
  "passes_lists allow deny x = (if allow \<noteq> [] then x \<in> set allow else x \<notin> set deny)"

text \<open>The tool definition that the catalog emits for tool \<open>t\<close> of server \<open>s\<close>.\<close>

definition prefixed :: "'j MCPServer \<Rightarrow> 'j MCPToolDef \<Rightarrow> 'j MCPToolDef" where
  "prefixed s t = t\<lparr> tool_Name := srv_Name s @ ''__'' @ tool_Name t \<rparr>"

text \<open>
  \<open>AddServer\<close> stores every server under its own name, so the managers built through
  the API satisfy: keys distinct (a Go map) and each entry's \<open>Name\<close> equal to its key.
\<close>

definition wf_manager :: "'j MCPManager \<Rightarrow> bool" where
  "wf_manager m = (distinct (map fst m) \<and> list_all (\<lambda>(k, s). srv_Name s = k) m)"

text \<open>
  Example states. \<open>ex_manager\<close> is the catalog scenario of the specification: server
  \<open>fs\<close> advertises \<open>read_file\<close> and \<open>write_file\<close> with \<open>write_file\<close> on its tool
  deny-list and is restricted to workspace \<open>w1\<close>; server \<open>db\<close> also advertises
  \<open>read_file\<close> and is unrestricted. \<open>clash_manager\<close> has a server name that contains
  the separator \<open>"__"\<close>.
\<close>

definition ex_tool :: "string \<Rightarrow> unit MCPToolDef" where
  "ex_tool n = \<lparr> tool_Name = n, tool_Description = ''Read'', tool_InputSchema = () \<rparr>"

definition ex_server :: "string \<Rightarrow> string list \<Rightarrow> string list \<Rightarrow> string list \<Rightarrow> unit MCPServer" where
  "ex_server n ts deny wallow =
     \<lparr> srv_Name = n, srv_Command = [], srv_Args = [], srv_URL = [], Connected = True,
       Tools = map ex_tool ts, WorkspaceAllowList = wallow, WorkspaceDenyList = [],
       ToolAllowList = [], ToolDenyList = deny \<rparr>"

definition ex_manager :: "unit MCPManager" where
  "ex_manager =
     [(''fs'', ex_server ''fs'' [''read_file'', ''write_file''] [''write_file''] [''w1'']),
      (''db'', ex_server ''db'' [''read_file''] [] [])]"

definition clash_manager :: "unit MCPManager" where
  "clash_manager =
     [(''a'', ex_server ''a'' [''b__c''] [] []),
      (''a__b'', ex_server ''a__b'' [''c''] [] [])]"

section \<open>Mailbox (pkg/orchestrator/mailbox/mailbox.go)\<close>

record Message =
  msg_ID :: string
  msg_From :: string
  msg_To :: string
  msg_Content :: string
  msg_Read :: bool
  msg_Timestamp :: int

text \<open>
  \<open>MemoryStore.messages\<close> is a Go map from message id to message, modelled like the
  server map: an association list in the order one \<open>range\<close> visits it.
\<close>

type_synonym MemoryStore = "(string \<times> Message) list"

definition NewMemoryStore :: MemoryStore where
  "NewMemoryStore = []"

definition SendMessage ::
  "string \<Rightarrow> int \<Rightarrow> MemoryStore \<Rightarrow> string \<Rightarrow> string \<Rightarrow> string \<Rightarrow> string \<times> MemoryStore" where
  "SendMessage newid now s from to content =
     (newid, AList.update newid
        \<lparr> msg_ID = newid, msg_From = from, msg_To = to, msg_Content = content,
          msg_Read = False, msg_Timestamp = now \<rparr> s)"

fun ListMessages :: "MemoryStore \<Rightarrow> string \<Rightarrow> Message list" where
  "ListMessages [] user = []"
| "ListMessages ((k, msg) # rest) user =
     (if msg_To msg = user \<or> msg_From msg = user
      then (if msg_To msg = user then msg # ListMessages rest user
            else ListMessages rest user)
      else ListMessages rest user)"

datatype mailbox_error = MessageNotFound | Unauthorized

definition ReadMessage :: "MemoryStore \<Rightarrow> string \<Rightarrow> string \<Rightarrow> mailbox_error + (Message \<times> MemoryStore)" where
  "ReadMessage s user msgID =
     (case map_of s msgID of
        None \<Rightarrow> Inl MessageNotFound
      | Some msg \<Rightarrow>
          if msg_To msg \<noteq> user then Inl Unauthorized
          else Inr (msg\<lparr> msg_Read := True \<rparr>, AList.update msgID (msg\<lparr> msg_Read := True \<rparr>) s))"

text \<open>
  The store of the repository's test: dad sends to kid, then kid sends to dad. The fresh
  id (\<open>uuid.New()\<close>) and the clock reading are inputs of \<open>SendMessage\<close>.
\<close>

definition ex_store :: MemoryStore where
  "ex_store =
     snd (SendMessage ''id2'' 20 (snd (SendMessage ''id1'' 10 NewMemoryStore ''dad'' ''kid'' ''Clean your room''))
            ''kid'' ''dad'' ''Done!'')"

section \<open>Safety filter (pkg/safety/filter.go)\<close>

definition LevelOff :: string where "LevelOff = ''off''"
definition LevelLow :: string where "LevelLow = ''low''"
definition LevelMedium :: string where "LevelMedium = ''medium''"
definition LevelHigh :: string where "LevelHigh = ''high''"

definition adultKeywords :: "string list" where
  "adultKeywords =
     [''violence'', ''weapons'', ''drugs'', ''alcohol'', ''tobacco'',
      ''gambling'', ''hate'', ''discrimination'', ''self-harm'',
      ''explicit'', ''pornography'', ''sexual'']"

definition mediumBlockKeywords :: "string list" where
  "mediumBlockKeywords =
     [''suicide'', ''murder'', ''kill'', ''attack'', ''bomb'',
      ''hack'', ''steal'', ''fraud'', ''scam'']"

definition teenOnlyTopics :: "string list" where
  "teenOnlyTopics = [''dating'', ''romance'', ''sex'', ''politics'', ''religion'']"

definition sensitiveTopics :: "string list" where
  "sensitiveTopics =
     [''dating'', ''romance'', ''sex'', ''politics'', ''religion'', ''death'', ''grief'']"

definition ambiguousPhrases :: "string list" where
  "ambiguousPhrases =
     [''in my opinion'', ''some people believe'', ''it depends'',
      ''you should ask'', ''talk to your parents'', ''consult an adult'']"

record Filter =
  level :: string
  birthYear :: "64 word"

definition NewFilter :: "string \<Rightarrow> 64 word \<Rightarrow> Filter" where
  "NewFilter lvl by = \<lparr> level = (if lvl = [] then LevelOff else lvl), birthYear = by \<rparr>"

text \<open>
  \<open>year\<close> is \<open>time.Now().Year()\<close>, an input of the model. The birth year, the year and
  the age are Go \<open>int\<close>s, 64-bit machine integers: the subtraction
  \<open>age := time.Now().Year() - f.birthYear\<close> wraps around, and \<open>age < 13\<close> compares the
  signed value.
\<close>

definition isYoungUser :: "64 word \<Rightarrow> Filter \<Rightarrow> bool" where
  "isYoungUser year f =
     (if birthYear f = 0 then False
      else let age = year - birthYear f in sint age < 13)"

definition isTeenUser :: "64 word \<Rightarrow> Filter \<Rightarrow> bool" where
  "isTeenUser year f =
     (if birthYear f = 0 then False
      else let age = year - birthYear f in sint age \<ge> 13 \<and> sint age < 18)"

definition shouldBlock :: "Filter \<Rightarrow> bool" where
  "shouldBlock f = (level f \<noteq> LevelOff)"

text \<open>The loop \<open>for _, kw := range kws { if strings.Contains(s, kw) { return ... } }\<close>.\<close>

fun any_keyword :: "string \<Rightarrow> string list \<Rightarrow> bool" where
  "any_keyword s [] = False"
| "any_keyword s (kw # kws) = (if Contains s kw then True else any_keyword s kws)"

definition CheckContent :: "(string \<Rightarrow> string) \<Rightarrow> 64 word \<Rightarrow> Filter \<Rightarrow> string \<Rightarrow> bool \<times> string" where
  "CheckContent lower year f content =
     (if \<not> shouldBlock f then (False, '''')
      else
        let contentLower = lower content in
        if level f = LevelLow \<and> any_keyword contentLower adultKeywords
        then (True, ''content blocked by safety filter (low)'')
        else if (level f = LevelMedium \<or> level f = LevelHigh)
                \<and> any_keyword contentLower adultKeywords
        then (True, ''content blocked by safety filter (medium/high)'')
        else if (level f = LevelMedium \<or> level f = LevelHigh)
                \<and> any_keyword contentLower mediumBlockKeywords
        then (True, ''content blocked by safety filter (medium/high)'')
        else if level f = LevelHigh \<and> isYoungUser year f
                \<and> any_keyword contentLower teenOnlyTopics
        then (True, ''content requires parent approval (high safety for young user)'')
        else (False, ''''))"

definition RequiresApproval :: "64 word \<Rightarrow> Filter \<Rightarrow> bool" where
  "RequiresApproval year f = (level f = LevelHigh \<and> isYoungUser year f)"

record CheckResult =
  Safe :: bool
  Blocked :: bool
  Rewrite :: bool
  NeedsApproval :: bool
  Reason :: string
  Original :: string
  Rewritten :: string
  BlockedMessage :: string

definition needsLLMCheck :: "(string \<Rightarrow> string) \<Rightarrow> string \<Rightarrow> bool" where
  "needsLLMCheck lower response = any_keyword (lower response) ambiguousPhrases"

definition getBlockedMessage :: "64 word \<Rightarrow> Filter \<Rightarrow> string \<Rightarrow> string" where
  "getBlockedMessage year f reason =
     (if isYoungUser year f
      then ''I can't share that information with you. Ask a parent or guardian if you'd like to know more about this topic.''
      else ''This content has been filtered for safety. Please try a different topic.'')"

definition CheckResponse :: "(string \<Rightarrow> string) \<Rightarrow> 64 word \<Rightarrow> Filter \<Rightarrow> string \<Rightarrow> CheckResult" where
  "CheckResponse lower year f response =
     (let result = \<lparr> Safe = True, Blocked = False, Rewrite = False, NeedsApproval = False,
                      Reason = '''', Original = response, Rewritten = '''',
                      BlockedMessage = '''' \<rparr>
      in
      if level f = LevelOff then result
      else
        case CheckContent lower year f response of
          (True, reason) \<Rightarrow>
            result\<lparr> Safe := False, Blocked := True, Reason := reason,
                    BlockedMessage := getBlockedMessage year f reason \<rparr>
        | (False, reason) \<Rightarrow>
            if level f = LevelHigh \<and> isYoungUser year f
               \<and> any_keyword (lower response) sensitiveTopics
            then result\<lparr> Safe := True, NeedsApproval := True,
                         Reason := ''Sensitive topic for young user - parent review recommended'' \<rparr>
            else if (level f = LevelMedium \<or> level f = LevelHigh)
                    \<and> needsLLMCheck lower response
            then result\<lparr> NeedsApproval := True,
                         Reason := ''Content may need review - using LLM safety check recommended'' \<rparr>
            else result)"

text \<open>The conditions in the words of the specification.\<close>

definition hits :: "string \<Rightarrow> string list \<Rightarrow> bool" where
  "hits s kws = (\<exists>kw \<in> set kws. Contains s kw)"

section \<open>Schedule provider (pkg/providers/schedule_provider.go)\<close>

datatype Weekday = Sunday | Monday | Tuesday | Wednesday | Thursday | Friday | Saturday

text \<open>
  The time \<open>t.In(p.location)\<close> as \<open>matchRule\<close> reads it: its weekday, hour and minute in
  the configured time zone.
\<close>

record GoTime =
  t_Weekday :: Weekday
  t_Hour :: nat
  t_Minute :: nat

text \<open>\<open>strings.ToLower(t.Weekday().String()[:3])\<close>.\<close>

fun weekday3 :: "Weekday \<Rightarrow> string" where
  "weekday3 Sunday = ''sun''"
| "weekday3 Monday = ''mon''"
| "weekday3 Tuesday = ''tue''"
| "weekday3 Wednesday = ''wed''"
| "weekday3 Thursday = ''thu''"
| "weekday3 Friday = ''fri''"
| "weekday3 Saturday = ''sat''"

record ScheduleHours =
  hours_Start :: string
  hours_End :: string

record ScheduleRule =
  rule_Days :: "string list"
  rule_Hours :: "ScheduleHours option"
  rule_Provider :: string
  rule_Model :: string

record ScheduleDefault =
  default_Provider :: string
  default_Model :: string

record ScheduleConfig =
  sched_Default :: ScheduleDefault
  sched_Rules :: "ScheduleRule list"

subsection \<open>time.Parse with the layout "15:04"\<close>

text \<open>
  \<open>time.Parse("15:04", value)\<close> of the Go standard library: an hour of one or two digits
  below 24, a colon, a minute of exactly two digits below 60, and nothing after it.
  \<open>getnum\<close> is the library's helper of that name.
\<close>

definition isDigit :: "char \<Rightarrow> bool" where
  "isDigit c = (c \<in> set ''0123456789'')"

definition digit_val :: "char \<Rightarrow> nat" where
  "digit_val c =
     (case map_of (zip ''0123456789'' [0, 1, 2, 3, 4, 5, 6, 7, 8, 9]) c of
        None \<Rightarrow> 0
      | Some d \<Rightarrow> d)"

fun getnum :: "string \<Rightarrow> bool \<Rightarrow> (nat \<times> string) option" where
  "getnum [] fixed = None"
| "getnum [c] fixed =
     (if \<not> isDigit c then None
      else if fixed then None else Some (digit_val c, []))"
| "getnum (c # d # rest) fixed =
     (if \<not> isDigit c then None
      else if \<not> isDigit d then (if fixed then None else Some (digit_val c, d # rest))
      else Some (digit_val c * 10 + digit_val d, rest))"

definition Parse_HHMM :: "string \<Rightarrow> (nat \<times> nat) option" where
  "Parse_HHMM v =
     (case getnum v False of
        None \<Rightarrow> None
      | Some (hour, v1) \<Rightarrow>
          if 24 \<le> hour then None
          else (case v1 of
                  [] \<Rightarrow> None
                | c # v2 \<Rightarrow>
                    if c \<noteq> CHR '':'' then None
                    else (case getnum v2 True of
                            None \<Rightarrow> None
                          | Some (minute, v3) \<Rightarrow>
                              if 60 \<le> minute then None
                              else if v3 \<noteq> [] then None
                              else Some (hour, minute))))"

subsection \<open>matchRule and resolveProvider\<close>

text \<open>The loop over \<open>rule.Days\<close> that sets \<open>dayMatch\<close>.\<close>

fun dayMatch :: "(string \<Rightarrow> string) \<Rightarrow> string \<Rightarrow> string list \<Rightarrow> bool" where
  "dayMatch lower weekday [] = False"
| "dayMatch lower weekday (d # ds) =
     (let d = lower d in
      if d = weekday then True
      else if d = ''weekday'' \<and> weekday \<noteq> ''sat'' \<and> weekday \<noteq> ''sun'' then True
      else if d = ''weekend'' \<and> (weekday = ''sat'' \<or> weekday = ''sun'') then True
      else dayMatch lower weekday ds)"

fun matchRule :: "(string \<Rightarrow> string) \<Rightarrow> GoTime \<Rightarrow> ScheduleRule list \<Rightarrow> ScheduleRule option" where
  "matchRule lower t [] = None"
| "matchRule lower t (rule # rest) =
     (if length (rule_Days rule) > 0 \<and> \<not> dayMatch lower (weekday3 (t_Weekday t)) (rule_Days rule)
      then matchRule lower t rest
      else
        case rule_Hours rule of
          None \<Rightarrow> Some rule
        | Some hours \<Rightarrow>
            let nowMins = t_Hour t * 60 + t_Minute t in
            (case Parse_HHMM (hours_Start hours) of
               None \<Rightarrow> matchRule lower t rest
             | Some (startHour, startMinute) \<Rightarrow>
                 (case Parse_HHMM (hours_End hours) of
                    None \<Rightarrow> matchRule lower t rest
                  | Some (endHour, endMinute) \<Rightarrow>
                      let startMins = startHour * 60 + startMinute;
                          endMins = endHour * 60 + endMinute
                      in
                      if startMins \<le> endMins
                      then (if nowMins < startMins \<or> nowMins \<ge> endMins
                            then matchRule lower t rest
                            else Some rule)
                      else (if nowMins < startMins \<and> nowMins \<ge> endMins
                            then matchRule lower t rest
                            else Some rule))))"

datatype schedule_error = RecursiveSchedule

text \<open>
  \<open>resolveProvider\<close> up to the call of \<open>CreateProvider\<close>: the provider type and the
  target model name that it puts into the cloned configuration.
\<close>

definition resolveProvider ::
  "(string \<Rightarrow> string) \<Rightarrow> ScheduleConfig \<Rightarrow> GoTime \<Rightarrow> schedule_error + (string \<times> string)" where
  "resolveProvider lower schedule t =
     (let (providerType, model) =
            (case matchRule lower t (sched_Rules schedule) of
               Some rule \<Rightarrow> (rule_Provider rule, rule_Model rule)
             | None \<Rightarrow> (default_Provider (sched_Default schedule),
                         default_Model (sched_Default schedule)))
      in
      if prefix ''schedule'' providerType then Inl RecursiveSchedule
      else Inr (providerType, if model = [] then providerType else model))"

subsection \<open>The matching rule in the words of the specification\<close>

definition day_ok :: "(string \<Rightarrow> string) \<Rightarrow> Weekday \<Rightarrow> ScheduleRule \<Rightarrow> bool" where
  "day_ok lower wd rule =
     (rule_Days rule = [] \<or>
      (\<exists>d \<in> set (rule_Days rule).
         lower d = weekday3 wd \<or>
         lower d = ''weekday'' \<and> wd \<in> {Monday, Tuesday, Wednesday, Thursday, Friday} \<or>
         lower d = ''weekend'' \<and> wd \<in> {Saturday, Sunday}))"

definition in_span :: "nat \<Rightarrow> nat \<Rightarrow> nat \<Rightarrow> bool" where
  "in_span start end now =
     (if start \<le> end then start \<le> now \<and> now < end else now \<ge> start \<or> now < end)"

definition hours_ok :: "GoTime \<Rightarrow> ScheduleRule \<Rightarrow> bool" where
  "hours_ok t rule =
     (case rule_Hours rule of
        None \<Rightarrow> True
      | Some hours \<Rightarrow>
          (case (Parse_HHMM (hours_Start hours), Parse_HHMM (hours_End hours)) of
             (Some (sh, sm), Some (eh, em)) \<Rightarrow>
                in_span (sh * 60 + sm) (eh * 60 + em) (t_Hour t * 60 + t_Minute t)
           | _ \<Rightarrow> False))"

definition rule_matches :: "(string \<Rightarrow> string) \<Rightarrow> GoTime \<Rightarrow> ScheduleRule \<Rightarrow> bool" where
  "rule_matches lower t rule = (day_ok lower (t_Weekday t) rule \<and> hours_ok t rule)"

text \<open>The literal scenarios of the specification.\<close>

definition ex_schedule :: ScheduleConfig where
  "ex_schedule =
     \<lparr> sched_Default = \<lparr> default_Provider = ''p1'', default_Model = ''m1'' \<rparr>,
       sched_Rules =
         [\<lparr> rule_Days = [''weekday''],
            rule_Hours = Some \<lparr> hours_Start = ''09:00'', hours_End = ''17:00'' \<rparr>,
            rule_Provider = ''p2'', rule_Model = ''m2'' \<rparr>,
          \<lparr> rule_Days = [],
            rule_Hours = Some \<lparr> hours_Start = ''22:00'', hours_End = ''06:00'' \<rparr>,
            rule_Provider = ''p3'', rule_Model = ''m3'' \<rparr>] \<rparr>"

section \<open>Memory engine (pkg/memory/manager.go)\<close>

subsection \<open>Chunking\<close>

text \<open>
  The text is chunked over \<open>[]rune(text)\<close>, a list of code points. \<open>chunkSize_of c\<close> is
  the window for the configured \<open>Embedding.ChunkSize\<close> \<open>c\<close>, and \<open>stride_of c\<close> is the
  loop increment \<open>chunkSize - overlap\<close> with \<open>overlap = chunkSize / 10\<close>.
\<close>

definition chunkSize_of :: "int \<Rightarrow> nat" where
  "chunkSize_of c = (if c \<le> 0 then 4096 else nat c)"

definition stride_of :: "int \<Rightarrow> nat" where
  "stride_of c = chunkSize_of c - chunkSize_of c div 10"

definition chunk_end :: "int \<Rightarrow> nat \<Rightarrow> nat \<Rightarrow> nat" where
  "chunk_end c len i = (if i + chunkSize_of c > len then len else i + chunkSize_of c)"

text \<open>
  The loop \<open>for i := 0; i < len(runes); i += (chunkSize - overlap)\<close> with its \<open>break\<close>
  when \<open>end == len(runes)\<close>, from loop index \<open>i\<close> on.
\<close>

function chunk_loop :: "int \<Rightarrow> 'a list \<Rightarrow> nat \<Rightarrow> 'a list list" where
  "chunk_loop c runes i =
     (if i < length runes
      then take (chunk_end c (length runes) i - i) (drop i runes)
           # (if chunk_end c (length runes) i = length runes then []
              else chunk_loop c runes (i + stride_of c))
      else [])"
  by pat_completeness auto
termination
  by (relation "measure (\<lambda>(c, runes, i). length runes - i)")
     (auto simp: chunk_end_def stride_of_def chunkSize_of_def split: if_splits)

definition chunk_text :: "int \<Rightarrow> 'a list \<Rightarrow> 'a list list" where
  "chunk_text c runes =
     (if length runes \<le> chunkSize_of c then [runes] else chunk_loop c runes 0)"

declare chunk_loop.simps [simp del]

subsection \<open>Strings and runes\<close>

text \<open>
  A Go string is a sequence of bytes (here a \<open>string\<close>, one \<open>char\<close> per byte) and a
  rune is a code point (here a \<open>nat\<close>). \<open>[]rune(text)\<close> decodes the bytes as UTF-8:
  \<open>DecodeRune\<close> gives the rune at the front of a byte sequence and the number of bytes it
  takes, following \<open>utf8.DecodeRuneInString\<close>; an ill-formed byte decodes to
  \<open>RuneError\<close> and takes one byte. \<open>utf8_first\<close> is the library's table for the first
  byte of a multi-byte sequence: its length and the range accepted for the second byte.
\<close>

definition RuneError :: nat where
  "RuneError = 0xFFFD"

definition utf8_first :: "nat \<Rightarrow> (nat \<times> nat \<times> nat) option" where
  "utf8_first b =
     (if b < 0xC2 then None
      else if b \<le> 0xDF then Some (2, 0x80, 0xBF)
      else if b = 0xE0 then Some (3, 0xA0, 0xBF)
      else if b \<le> 0xEC then Some (3, 0x80, 0xBF)
      else if b = 0xED then Some (3, 0x80, 0x9F)
      else if b \<le> 0xEF then Some (3, 0x80, 0xBF)
      else if b = 0xF0 then Some (4, 0x90, 0xBF)
      else if b \<le> 0xF3 then Some (4, 0x80, 0xBF)
      else if b = 0xF4 then Some (4, 0x80, 0x8F)
      else None)"

definition DecodeRune :: "nat list \<Rightarrow> nat \<times> nat" where
  "DecodeRune s =
     (case s of
        [] \<Rightarrow> (RuneError, 0)
      | s0 # rest \<Rightarrow>
          (case utf8_first s0 of
             None \<Rightarrow> (if s0 < 0x80 then s0 else RuneError, 1)
           | Some (sz, lo, hi) \<Rightarrow>
               if length s < sz then (RuneError, 1)
               else
                 let s1 = s ! 1 in
                 if s1 < lo \<or> hi < s1 then (RuneError, 1)
                 else if sz \<le> 2 then ((s0 mod 32) * 64 + s1 mod 64, 2)
                 else
                   let s2 = s ! 2 in
                   if s2 < 0x80 \<or> 0xBF < s2 then (RuneError, 1)
                   else if sz \<le> 3
                   then ((s0 mod 16) * 4096 + (s1 mod 64) * 64 + s2 mod 64, 3)
                   else
                     let s3 = s ! 3 in
                     if s3 < 0x80 \<or> 0xBF < s3 then (RuneError, 1)
                     else ((s0 mod 8) * 262144 + (s1 mod 64) * 4096 + (s2 mod 64) * 64
                             + s3 mod 64, 4)))"

text \<open>
  The conversion loop: decode the rune at the front, skip its bytes (the first byte and
  \<open>width - 1\<close> more), and go on.
\<close>

fun runes_of_bytes :: "nat list \<Rightarrow> nat list" where
  "runes_of_bytes [] = []"
| "runes_of_bytes (b # bs) =
     fst (DecodeRune (b # bs)) # runes_of_bytes (drop (snd (DecodeRune (b # bs)) - 1) bs)"

definition runes_of_string :: "string \<Rightarrow> nat list" where
  "runes_of_string text = runes_of_bytes (map of_char text)"

text \<open>
  \<open>string(runes)\<close> encodes every rune as UTF-8; a surrogate or a value above
  \<open>U+10FFFF\<close> is encoded as \<open>RuneError\<close>.
\<close>

definition EncodeRune :: "nat \<Rightarrow> nat list" where
  "EncodeRune r =
     (if r \<le> 0x7F then [r]
      else if r \<le> 0x7FF then [0xC0 + r div 64, 0x80 + r mod 64]
      else if r > 0x10FFFF \<or> (0xD800 \<le> r \<and> r \<le> 0xDFFF) then [0xEF, 0xBF, 0xBD]
      else if r \<le> 0xFFFF
      then [0xE0 + r div 4096, 0x80 + (r div 64) mod 64, 0x80 + r mod 64]
      else [0xF0 + r div 262144, 0x80 + (r div 4096) mod 64, 0x80 + (r div 64) mod 64,
            0x80 + r mod 64])"

definition string_of_runes :: "nat list \<Rightarrow> string" where
  "string_of_runes rs = map char_of (concat (map EncodeRune rs))"

text \<open>
  Step 2 of \<open>ArchiveSession\<close> on the text: the runes are counted and cut by the chunking
  above; a text of at most \<open>chunkSize\<close> runes is kept as it is, otherwise every window of
  runes is converted back to a string.
\<close>

definition text_chunks :: "int \<Rightarrow> string \<Rightarrow> string list" where
  "text_chunks c text =
     (let runes = runes_of_string text in
      if length runes \<le> chunkSize_of c then [text]
      else map string_of_runes (chunk_loop c runes 0))"

subsection \<open>Archival\<close>

record ChatMessage =
  pm_Role :: string
  pm_Content :: string

record MemoryConfig =
  mem_Enabled :: bool
  mem_ChunkSize :: int
  mem_CollectionName :: string

record Payload =
  p_workspace_id :: string
  p_session_id :: string
  p_content :: string
  p_timestamp :: int
  p_chunk_index :: nat
  p_total_chunks :: nat

record 'f VectorRecord =
  vr_ID :: string
  vr_Vector :: "'f list"
  vr_Payload :: Payload

text \<open>
  The \<open>VectorDB\<close> interface, over a store state \<open>'db\<close>; \<open>None\<close> is the error return
  of an operation. The \<open>Embedder\<close> is a function from text to a vector, \<open>None\<close> its error.
\<close>

record ('db, 'f) VectorDB =
  db_EnsureCollection :: "'db \<Rightarrow> string \<Rightarrow> nat \<Rightarrow> 'db option"
  db_Store :: "'db \<Rightarrow> string \<Rightarrow> 'f VectorRecord \<Rightarrow> 'db option"

record ('db, 'f) Manager =
  man_db :: "('db, 'f) VectorDB option"
  man_embedder :: "(string \<Rightarrow> 'f list option) option"
  man_config :: MemoryConfig

datatype archive_error =
  EmbedFirstChunkFailed | EnsureCollectionFailed | StoreFailed nat | EmbedFailed nat

text \<open>Step 1: the text \<open>"<role>: <content>\n"\<close> of every message whose role is not \<open>system\<close>.\<close>

fun build_text :: "ChatMessage list \<Rightarrow> string" where
  "build_text [] = []"
| "build_text (msg # rest) =
     (if pm_Role msg = ''system'' then build_text rest
      else pm_Role msg @ '': '' @ pm_Content msg @ [CHR 0x0A] @ build_text rest)"

definition rawID :: "string \<Rightarrow> string \<Rightarrow> int \<Rightarrow> nat \<Rightarrow> string" where
  "rawID workspaceID sessionID timestamp i =
     workspaceID @ ''_'' @ sessionID @ ''_'' @ show_int timestamp @ ''_'' @ show_nat i"

text \<open>
  The record stored for chunk \<open>i\<close>. \<open>uuid name\<close> stands for
  \<open>uuid.NewMD5(uuid.NameSpaceURL, []byte(name)).String()\<close> of the \<open>google/uuid\<close> library.
\<close>

definition chunk_record ::
  "(string \<Rightarrow> string) \<Rightarrow> string \<Rightarrow> string \<Rightarrow> int \<Rightarrow> nat \<Rightarrow> nat \<Rightarrow> string \<Rightarrow> 'f list
     \<Rightarrow> 'f VectorRecord" where
  "chunk_record uuid workspaceID sessionID timestamp totalChunks i chunk vector =
     \<lparr> vr_ID = uuid (rawID workspaceID sessionID timestamp i),
       vr_Vector = vector,
       vr_Payload =
         \<lparr> p_workspace_id = workspaceID, p_session_id = sessionID, p_content = chunk,
           p_timestamp = go_quot timestamp 1000000000,
           p_chunk_index = i, p_total_chunks = totalChunks \<rparr> \<rparr>"

text \<open>
  The loop \<open>for i := 1; i < len(chunks); i++\<close>: \<open>rest\<close> are the chunks from index
  \<open>i\<close> on.
\<close>

fun store_rest ::
  "('db, 'f) VectorDB \<Rightarrow> (string \<Rightarrow> 'f list option) \<Rightarrow> (string \<Rightarrow> string) \<Rightarrow> string \<Rightarrow>
   string \<Rightarrow> string \<Rightarrow> int \<Rightarrow> nat \<Rightarrow> nat \<Rightarrow> string list \<Rightarrow> 'db \<Rightarrow> archive_error option \<times> 'db" where
  "store_rest ops embedder uuid collection ws sess ts totalChunks i [] db = (None, db)"
| "store_rest ops embedder uuid collection ws sess ts totalChunks i (chunk # rest) db =
     (case embedder chunk of
        None \<Rightarrow> (Some (EmbedFailed i), db)
      | Some vector \<Rightarrow>
          (case db_Store ops db collection (chunk_record uuid ws sess ts totalChunks i chunk vector) of
             None \<Rightarrow> (Some (StoreFailed i), db)
           | Some db' \<Rightarrow> store_rest ops embedder uuid collection ws sess ts totalChunks (Suc i) rest db'))"

text \<open>The collection name, \<open>picoclaw\<close> when none is configured.\<close>

definition collection_of :: "MemoryConfig \<Rightarrow> string" where
  "collection_of cfg = (if mem_CollectionName cfg = [] then ''picoclaw'' else mem_CollectionName cfg)"

text \<open>
  \<open>ArchiveSession\<close>. \<open>now\<close> is the value of \<open>time.Now().UnixNano()\<close> that the call
  reads; the result is the error (\<open>None\<close> for \<open>nil\<close>) and the store afterwards.
\<close>

definition ArchiveSession ::
  "(string \<Rightarrow> string) \<Rightarrow> int \<Rightarrow> ('db, 'f) Manager \<Rightarrow> 'db \<Rightarrow> string \<Rightarrow> string \<Rightarrow> ChatMessage list
     \<Rightarrow> archive_error option \<times> 'db" where
  "ArchiveSession uuid now m db workspaceID sessionID messages =
     (case (man_db m, man_embedder m) of
        (Some ops, Some embedder) \<Rightarrow>
          if \<not> mem_Enabled (man_config m) then (None, db)
          else
            let text = build_text messages in
            if text = [] then (None, db)
            else
              let chunks = text_chunks (mem_ChunkSize (man_config m)) text;
                  collection = collection_of (man_config m)
              in
              (case chunks of
                 [] \<Rightarrow> (None, db)
               | chunk0 # rest \<Rightarrow>
                   (case embedder chunk0 of
                      None \<Rightarrow> (Some EmbedFirstChunkFailed, db)
                    | Some vector \<Rightarrow>
                        (case db_EnsureCollection ops db collection (length vector) of
                           None \<Rightarrow> (Some EnsureCollectionFailed, db)
                         | Some db1 \<Rightarrow>
                             let timestamp = now in
                             (case db_Store ops db1 collection
                                     (chunk_record uuid workspaceID sessionID timestamp
                                        (length chunks) 0 chunk0 vector) of
                                None \<Rightarrow> (Some (StoreFailed 0), db1)
                              | Some db2 \<Rightarrow>
                                  store_rest ops embedder uuid collection workspaceID sessionID
                                    timestamp (length chunks) 1 rest db2))))
      | _ \<Rightarrow> (None, db))"

subsection \<open>A vector store with upsert\<close>

text \<open>
  The store behind the \<open>VectorDB\<close> interface is Qdrant, reached through
  \<open>qdrant.Client\<close>: \<open>EnsureCollection\<close> creates the collection when it does not exist and
  \<open>Store\<close> upserts one point under its id. \<open>memdb\<close> models that store: a collection name
  maps to the dimension and the points of the collection, a point id to its record.
\<close>

type_synonym 'f memdb = "string \<rightharpoonup> (nat \<times> (string \<rightharpoonup> 'f VectorRecord))"

definition mem_EnsureCollection :: "'f memdb \<Rightarrow> string \<Rightarrow> nat \<Rightarrow> 'f memdb option" where
  "mem_EnsureCollection db name dimension =
     (case db name of
        None \<Rightarrow> Some (db(name \<mapsto> (dimension, Map.empty)))
      | Some col \<Rightarrow> Some db)"

definition mem_Store :: "'f memdb \<Rightarrow> string \<Rightarrow> 'f VectorRecord \<Rightarrow> 'f memdb option" where
  "mem_Store db name r =
     (case db name of
        None \<Rightarrow> None
      | Some (dimension, points) \<Rightarrow> Some (db(name \<mapsto> (dimension, points(vr_ID r \<mapsto> r)))))"

definition mem_ops :: "('f memdb, 'f) VectorDB" where
  "mem_ops = \<lparr> db_EnsureCollection = mem_EnsureCollection, db_Store = mem_Store \<rparr>"

definition mem_manager :: "MemoryConfig \<Rightarrow> (string \<Rightarrow> 'f list option) \<Rightarrow> ('f memdb, 'f) Manager" where
  "mem_manager cfg embedder = \<lparr> man_db = Some mem_ops, man_embedder = Some embedder, man_config = cfg \<rparr>"

text \<open>The point stored under \<open>pid\<close> in collection \<open>name\<close>.\<close>

definition mem_point :: "'f memdb \<Rightarrow> string \<Rightarrow> string \<Rightarrow> 'f VectorRecord option" where
  "mem_point db name pid = (case db name of None \<Rightarrow> None | Some (dimension, points) \<Rightarrow> points pid)"

text \<open>
  The records that an archival stores when every embedding succeeds: \<open>rest_records\<close>
  follows the chunks from index \<open>i\<close> on, \<open>None\<close> when an embedding fails.
\<close>

fun rest_records ::
  "(string \<Rightarrow> 'f list option) \<Rightarrow> (string \<Rightarrow> string) \<Rightarrow> string \<Rightarrow> string \<Rightarrow> int \<Rightarrow> nat \<Rightarrow> nat \<Rightarrow>
   string list \<Rightarrow> 'f VectorRecord list option" where
  "rest_records embedder uuid ws sess ts totalChunks i [] = Some []"
| "rest_records embedder uuid ws sess ts totalChunks i (chunk # rest) =
     (case embedder chunk of
        None \<Rightarrow> None
      | Some vector \<Rightarrow>
          (case rest_records embedder uuid ws sess ts totalChunks (Suc i) rest of
             None \<Rightarrow> None
           | Some rs \<Rightarrow> Some (chunk_record uuid ws sess ts totalChunks i chunk vector # rs)))"

definition upsert :: "'f VectorRecord \<Rightarrow> (string \<rightharpoonup> 'f VectorRecord) \<Rightarrow> (string \<rightharpoonup> 'f VectorRecord)" where
  "upsert r points = points(vr_ID r \<mapsto> r)"

text \<open>
  An example: one user message, archived into the empty store at clock reading
  \<open>1000000000\<close> and archived again one second later. \<open>ex_uuid\<close> lists the values of
  \<open>uuid.NewMD5(uuid.NameSpaceURL, name)\<close> for the two names that occur; \<open>ex_embed\<close> is a
  stand-in for the embedding service.
\<close>

definition ex_uuid :: "string \<Rightarrow> string" where
  "ex_uuid name =
     (if name = ''w_s_1000000000_0'' then ''08071c54-008d-3a87-a2f8-f8cdcc274c26''
      else if name = ''w_s_2000000000_0'' then ''57d7d1e5-8608-312c-a0bf-6fcb64f84f9b''
      else [])"

definition ex_embed :: "string \<Rightarrow> nat list option" where
  "ex_embed text = Some [length text]"

definition ex_memory :: "(nat memdb, nat) Manager" where
  "ex_memory =
     mem_manager \<lparr> mem_Enabled = True, mem_ChunkSize = 0, mem_CollectionName = [] \<rparr> ex_embed"

definition ex_messages :: "ChatMessage list" where
  "ex_messages = [\<lparr> pm_Role = ''system'', pm_Content = ''be kind'' \<rparr>,
                  \<lparr> pm_Role = ''user'', pm_Content = ''hi'' \<rparr>]"

definition ex_archive1 :: "archive_error option \<times> nat memdb" where
  "ex_archive1 = ArchiveSession ex_uuid 1000000000 ex_memory Map.empty ''w'' ''s'' ex_messages"

definition ex_archive2 :: "archive_error option \<times> nat memdb" where
  "ex_archive2 =
     ArchiveSession ex_uuid 2000000000 ex_memory (snd ex_archive1) ''w'' ''s'' ex_messages"

section \<open>Webhook endpoint (cmd/picoclaw gateway, webhookHandler)\<close>

record WebhookConfig =
  wh_Format :: string
  wh_Secret :: string
  wh_Agent :: string

text \<open>
  The request as the handler reads it: method, \<open>r.URL.Path\<close>, the headers (canonical name
  to first value) and the body, \<open>None\<close> when \<open>io.ReadAll\<close> fails.
\<close>

record Request =
  req_Method :: string
  req_Path :: string
  req_Header :: "string \<rightharpoonup> string"
  req_Body :: "string option"

text \<open>\<open>Header.Get\<close>: the first value of the header, the empty string when it is absent.\<close>

definition Header_Get :: "(string \<rightharpoonup> string) \<Rightarrow> string \<Rightarrow> string" where
  "Header_Get h key = (case h key of None \<Rightarrow> [] | Some v \<Rightarrow> v)"

text \<open>\<open>hex.EncodeToString\<close>: two lower-case hexadecimal digits per byte.\<close>

definition hex_digit :: "nat \<Rightarrow> char" where
  "hex_digit n = ''0123456789abcdef'' ! n"

definition EncodeToString :: "string \<Rightarrow> string" where
  "EncodeToString bs =
     concat (map (\<lambda>b. [hex_digit (of_char b div 16), hex_digit (of_char b mod 16)]) bs)"

record SessionKeyParams =
  sk_AgentID :: string
  sk_Channel :: string
  sk_PeerKind :: string
  sk_PeerID :: string

text \<open>
  What the handler did: the HTTP status and body it wrote, and the call of
  \<open>ProcessDirectWithChannel\<close> (content, session key, channel, chat id) if it made one.
\<close>

record HandlerResult =
  res_Status :: nat
  res_Body :: string
  res_Forwarded :: "(string \<times> string \<times> string \<times> string) option"

definition http_Error :: "string \<Rightarrow> nat \<Rightarrow> HandlerResult" where
  "http_Error msg code = \<lparr> res_Status = code, res_Body = msg @ [CHR 0x0A], res_Forwarded = None \<rparr>"

text \<open>
  The signature check of a \<open>github\<close> webhook. \<open>mac key body\<close> stands for the bytes of
  HMAC-SHA256 (\<open>crypto/hmac\<close> with \<open>sha256.New\<close>); \<open>hmac.Equal\<close> is modelled by equality
  of the two byte strings, which is what it decides. \<open>None\<close> means the check passed.
\<close>

definition check_signature ::
  "(string \<Rightarrow> string \<Rightarrow> string) \<Rightarrow> WebhookConfig \<Rightarrow> Request \<Rightarrow> string \<Rightarrow> HandlerResult option" where
  "check_signature mac webhook r body =
     (let sigHeader = Header_Get (req_Header r) ''X-Hub-Signature-256'' in
      if sigHeader = [] then Some (http_Error ''Missing signature'' 401)
      else
        let parts = SplitN2 sigHeader ''='' in
        if length parts \<noteq> 2 \<or> parts ! 0 \<noteq> ''sha256''
        then Some (http_Error ''Invalid signature format'' 400)
        else
          let expectedMAC = EncodeToString (mac (wh_Secret webhook) body) in
          if \<not> (parts ! 1 = expectedMAC) then Some (http_Error ''Invalid signature'' 401)
          else None)"

text \<open>
  \<open>processor\<close> is \<open>ProcessDirectWithChannel\<close> (\<open>Inl\<close> its error) and \<open>buildKey\<close> is
  \<open>routing.BuildAgentPeerSessionKey\<close>; both are defined outside the handler. The
  \<open>DMScope\<close> argument is the constant \<open>routing.DMScopePerChannelPeer\<close> at this call
  and is left inside \<open>buildKey\<close>.
\<close>

definition webhookHandler ::
  "(string \<Rightarrow> string \<Rightarrow> string \<Rightarrow> string \<Rightarrow> string + string) \<Rightarrow>
   (string \<Rightarrow> string \<Rightarrow> string) \<Rightarrow> (SessionKeyParams \<Rightarrow> string) \<Rightarrow>
   (string \<rightharpoonup> WebhookConfig) \<Rightarrow> Request \<Rightarrow> HandlerResult" where
  "webhookHandler processor mac buildKey webhooks r =
     (if req_Method r \<noteq> ''POST'' then http_Error ''Method not allowed'' 405
      else
        let pathParts = split_on CHR ''/'' (Trim (req_Path r) ''/'') in
        if length pathParts \<noteq> 2 \<or> pathParts ! 0 \<noteq> ''webhook'' then http_Error ''Not found'' 404
        else
          let webhookID = pathParts ! 1 in
          case webhooks webhookID of
            None \<Rightarrow> http_Error ''Webhook not found'' 404
          | Some webhook \<Rightarrow>
              (case req_Body r of
                 None \<Rightarrow> http_Error ''Error reading body'' 500
               | Some body \<Rightarrow>
                   (case (if wh_Format webhook = ''github''
                          then check_signature mac webhook r body else None) of
                      Some rejected \<Rightarrow> rejected
                    | None \<Rightarrow>
                        let payloadStr =
                              (if wh_Format webhook = ''github''
                               then ''GitHub Webhook Event: ''
                                      @ Header_Get (req_Header r) ''X-GitHub-Event''
                                      @ [CHR 0x0A] @ ''Payload: '' @ body
                               else ''Webhook Event: '' @ body);
                            agentID = (if wh_Agent webhook = [] then ''default''
                                       else wh_Agent webhook);
                            sessionKey = buildKey
                              \<lparr> sk_AgentID = agentID, sk_Channel = ''webhook'',
                                sk_PeerKind = ''direct'', sk_PeerID = webhookID \<rparr>
                        in
                        (case processor payloadStr sessionKey ''webhook'' webhookID of
                           Inl err \<Rightarrow>
                             \<lparr> res_Status = 500,
                               res_Body = ''Internal server error'' @ [CHR 0x0A],
                               res_Forwarded =
                                 Some (payloadStr, sessionKey, ''webhook'', webhookID) \<rparr>
                         | Inr reply \<Rightarrow>
                             \<lparr> res_Status = 200, res_Body = ''OK'',
                               res_Forwarded =
                                 Some (payloadStr, sessionKey, ''webhook'', webhookID) \<rparr>))))"


text \<open>
  An example configuration and requests, after the repository's test: webhook
  \<open>github-id\<close> with secret \<open>my_secret\<close>. \<open>ex_mac\<close> is a stand-in for HMAC-SHA256 that
  is only used to run the handler on the example; the theorems hold for every \<open>mac\<close>.
\<close>

definition ex_mac :: "string \<Rightarrow> string \<Rightarrow> string" where
  "ex_mac key body = [CHR 0xAB, CHR 0x01]"

definition ex_buildKey :: "SessionKeyParams \<Rightarrow> string" where
  "ex_buildKey p = sk_AgentID p @ '':'' @ sk_Channel p @ '':'' @ sk_PeerKind p @ '':'' @ sk_PeerID p"

definition ex_processor :: "string \<Rightarrow> string \<Rightarrow> string \<Rightarrow> string \<Rightarrow> string + string" where
  "ex_processor content sessionKey channel chatID = Inr ''ok''"

definition ex_webhooks :: "string \<rightharpoonup> WebhookConfig" where
  "ex_webhooks =
     map_of [(''test-id'', \<lparr> wh_Format = ''json'', wh_Secret = [], wh_Agent = ''default'' \<rparr>),
             (''github-id'', \<lparr> wh_Format = ''github'', wh_Secret = ''my_secret'',
                               wh_Agent = ''my_agent'' \<rparr>)]"

definition ex_request :: "string \<Rightarrow> Request" where
  "ex_request sig =
     \<lparr> req_Method = ''POST'', req_Path = ''/webhook/github-id'',
       req_Header = map_of [(''X-Hub-Signature-256'', sig), (''X-GitHub-Event'', ''push'')],
       req_Body = Some ''{}'' \<rparr>"

section \<open>Qdrant address (pkg/memory/qdrant, ParseAddress)\<close>

text \<open>
  \<open>ParseAddress\<close> calls two functions of the Go standard library, which are parameters
  of the model. \<open>url_Parse s\<close> is \<open>url.Parse(s)\<close>: \<open>None\<close> for an error, otherwise the
  values of \<open>u.Scheme\<close>, \<open>u.Hostname()\<close> and \<open>u.Port()\<close>. \<open>Sscanf_d s\<close> is
  \<open>fmt.Sscanf(s, "%d", &port)\<close>: the integer it stores, \<open>None\<close> when it returns an
  error and leaves \<open>port\<close> as it was.
\<close>

record ParsedURL =
  u_Scheme :: string
  u_Hostname :: string
  u_Port :: string

definition ParseAddress ::
  "(string \<Rightarrow> ParsedURL option) \<Rightarrow> (string \<Rightarrow> int option) \<Rightarrow> string \<Rightarrow> string \<times> int \<times> bool" where
  "ParseAddress url_Parse Sscanf_d rawURL =
     (let host = rawURL; port = 6334; useTLS = False in
      if Contains rawURL ''://''
      then (case url_Parse rawURL of
              None \<Rightarrow> (host, port, useTLS)
            | Some u \<Rightarrow>
                (u_Hostname u,
                 (if u_Port u \<noteq> []
                  then (if u_Port u = ''6333'' then 6334
                        else (case Sscanf_d (u_Port u) of None \<Rightarrow> port | Some n \<Rightarrow> n))
                  else port),
                 (if u_Scheme u = ''https'' then True else useTLS)))
      else
        let parts = split_on CHR '':'' rawURL in
        if length parts = 2
        then (parts ! 0,
              (if parts ! 1 = ''6333'' then 6334
               else (case Sscanf_d (parts ! 1) of None \<Rightarrow> port | Some n \<Rightarrow> n)),
              useTLS)
        else (host, port, useTLS))"

text \<open>
  The port rule in words: the text \<open>6333\<close> is remapped to 6334; any other text gives the
  integer scanned from it, and 6334 when none can be scanned.
\<close>

definition port_rule :: "(string \<Rightarrow> int option) \<Rightarrow> string \<Rightarrow> int" where
  "port_rule Sscanf_d p =
     (if p = ''6333'' then 6334 else (case Sscanf_d p of None \<Rightarrow> 6334 | Some n \<Rightarrow> n))"

text \<open>
  The results of \<open>url.Parse\<close> and of \<open>fmt.Sscanf\<close> with \<open>%d\<close> on the inputs of the
  repository's test and on \<open>https:foo\<close>, a URL with scheme \<open>https\<close> and the opaque part
  \<open>foo\<close>; every other input is listed as an error.
\<close>

definition ex_url_Parse :: "string \<Rightarrow> ParsedURL option" where
  "ex_url_Parse =
     map_of
       [(''http://192.168.0.70:6333'',
           \<lparr> u_Scheme = ''http'', u_Hostname = ''192.168.0.70'', u_Port = ''6333'' \<rparr>),
        (''https://qdrant.example.com'',
           \<lparr> u_Scheme = ''https'', u_Hostname = ''qdrant.example.com'', u_Port = [] \<rparr>),
        (''http://localhost'',
           \<lparr> u_Scheme = ''http'', u_Hostname = ''localhost'', u_Port = [] \<rparr>),
        (''https://qdrant.example.com:8443'',
           \<lparr> u_Scheme = ''https'', u_Hostname = ''qdrant.example.com'', u_Port = ''8443'' \<rparr>),
        (''https:foo'',
           \<lparr> u_Scheme = ''https'', u_Hostname = [], u_Port = [] \<rparr>)]"

definition ex_Sscanf_d :: "string \<Rightarrow> int option" where
  "ex_Sscanf_d = map_of [(''6333'', 6333), (''8443'', 8443), (''7000'', 7000)]"

section \<open>Facts about the string helpers\<close>

lemma Contains_Nil: "Contains [] substr = (substr = [])"
  by (simp add: Contains_def)

lemma Contains_Cons: "Contains (c # cs) substr = (prefix substr (c # cs) \<or> Contains cs substr)"
  by (simp add: Contains_def sublist_Cons_right)

lemmas Contains_simps = Contains_Nil Contains_Cons

lemma Contains_iff: "Contains s substr = (\<exists>ps ss. s = ps @ substr @ ss)"
  by (simp add: Contains_def sublist_def)

lemma cut_first_Some: "cut_first sep s = Some (a, b) \<Longrightarrow> s = a @ sep @ b"
proof (induction s arbitrary: a)
  case Nil
  then show ?case by (auto split: if_splits)
next
  case (Cons c cs)
  show ?case
  proof (cases "prefix sep (c # cs)")
    case True
    then obtain zs where zs: "c # cs = sep @ zs" by (auto simp: prefix_def)
    from True Cons.prems have "a = []" and "b = drop (length sep) (c # cs)"
      by simp_all
    then show ?thesis by (simp add: zs)
  next
    case False
    with Cons.prems obtain a' where "cut_first sep cs = Some (a', b)" and "a = c # a'"
      by (auto split: option.splits)
    with Cons.IH show ?thesis by auto
  qed
qed

section \<open>Properties of the MCP tool catalog\<close>

lemma isToolAllowed_passes:
  "isToolAllowed s x = passes_lists (ToolAllowList s) (ToolDenyList s) x"
  by (simp add: isToolAllowed_def passes_lists_def)

lemma isWorkspaceAllowed_passes:
  "isWorkspaceAllowed s w = passes_lists (WorkspaceAllowList s) (WorkspaceDenyList s) w"
  by (simp add: isWorkspaceAllowed_def passes_lists_def)

lemma emit_tools_eq:
  "emit_tools s ts = map (prefixed s) (filter (\<lambda>t. isToolAllowed s (tool_Name t)) ts)"
  by (induction ts) (simp_all add: prefixed_def)

lemma GetAllTools_eq:
  "GetAllTools m =
     concat (map (\<lambda>(k, s). emit_tools s (Tools s)) (filter (\<lambda>(k, s). Connected s) m))"
  by (induction m rule: GetAllTools.induct) simp_all

lemma GetToolsForWorkspace_eq:
  "GetToolsForWorkspace m w =
     concat (map (\<lambda>(k, s). emit_tools s (Tools s))
       (filter (\<lambda>(k, s). Connected s \<and> isWorkspaceAllowed s w) m))"
  by (induction m w rule: GetToolsForWorkspace.induct) simp_all

lemma set_emit_tools:
  "set (emit_tools s ts) = prefixed s ` {t \<in> set ts. isToolAllowed s (tool_Name t)}"
  by (auto simp: emit_tools_eq)

text \<open>
  C1. A tool definition is in the catalog of \<open>GetAllTools\<close> exactly when it is the
  prefixed copy (name \<open>"<serverName>__<tool>"\<close>, description and schema unchanged) of a tool
  of a server that has \<open>Connected = True\<close> and whose original name passes that server's tool
  allow/deny lists; \<open>GetToolsForWorkspace w\<close> emits exactly those of them whose server also
  lets the workspace \<open>w\<close> pass its workspace allow/deny lists under the same rule.
\<close>

theorem C1_catalog_filter:
  "(d \<in> set (GetAllTools m) \<longleftrightarrow>
      (\<exists>(k, s) \<in> set m. \<exists>t \<in> set (Tools s).
          Connected s \<and> passes_lists (ToolAllowList s) (ToolDenyList s) (tool_Name t) \<and>
          d = prefixed s t \<and> tool_Name d = srv_Name s @ ''__'' @ tool_Name t))
   \<and>
   (d \<in> set (GetToolsForWorkspace m w) \<longleftrightarrow>
      (\<exists>(k, s) \<in> set m. \<exists>t \<in> set (Tools s).
          Connected s \<and> passes_lists (WorkspaceAllowList s) (WorkspaceDenyList s) w \<and>
          passes_lists (ToolAllowList s) (ToolDenyList s) (tool_Name t) \<and>
          d = prefixed s t \<and> tool_Name d = srv_Name s @ ''__'' @ tool_Name t))"
proof (intro conjI)
  show "d \<in> set (GetAllTools m) \<longleftrightarrow>
      (\<exists>(k, s) \<in> set m. \<exists>t \<in> set (Tools s).
          Connected s \<and> passes_lists (ToolAllowList s) (ToolDenyList s) (tool_Name t) \<and>
          d = prefixed s t \<and> tool_Name d = srv_Name s @ ''__'' @ tool_Name t)"
    unfolding GetAllTools_eq
    by (fastforce simp: set_emit_tools isToolAllowed_passes prefixed_def)
  show "d \<in> set (GetToolsForWorkspace m w) \<longleftrightarrow>
      (\<exists>(k, s) \<in> set m. \<exists>t \<in> set (Tools s).
          Connected s \<and> passes_lists (WorkspaceAllowList s) (WorkspaceDenyList s) w \<and>
          passes_lists (ToolAllowList s) (ToolDenyList s) (tool_Name t) \<and>
          d = prefixed s t \<and> tool_Name d = srv_Name s @ ''__'' @ tool_Name t)"
    unfolding GetToolsForWorkspace_eq
    by (fastforce simp: set_emit_tools isToolAllowed_passes isWorkspaceAllowed_passes prefixed_def)
qed

theorem C1_catalog_filter_witness:
  "prefixed (ex_server ''db'' [''read_file''] [] []) (ex_tool ''read_file'')
     \<in> set (GetAllTools ex_manager) \<and>
   prefixed (ex_server ''db'' [''read_file''] [] []) (ex_tool ''read_file'')
     \<in> set (GetToolsForWorkspace ex_manager ''w2'') \<and>
   map tool_Name (GetAllTools ex_manager) = [''fs__read_file'', ''db__read_file''] \<and>
   map tool_Name (GetToolsForWorkspace ex_manager ''w2'') = [''db__read_file'']"
  using C1_catalog_filter
    [of "prefixed (ex_server ''db'' [''read_file''] [] []) (ex_tool ''read_file'')"
        ex_manager "''w2''"]
  by (simp add: ex_manager_def ex_server_def ex_tool_def isToolAllowed_def
      isWorkspaceAllowed_def prefixed_def)

subsection \<open>The manager invariant kept by AddServer and RemoveServer\<close>

lemma set_update_cases:
  "x \<in> set (AList.update k v al) \<Longrightarrow> x = (k, v) \<or> x \<in> set al"
  by (induction al) (auto split: if_splits)

lemma wf_NewManager: "wf_manager NewManager"
  by (simp add: wf_manager_def NewManager_def)

lemma wf_AddServer: "wf_manager m \<Longrightarrow> wf_manager (AddServer m config)"
  unfolding wf_manager_def AddServer_def list_all_iff
  by (auto simp: distinct_update dest!: set_update_cases)

lemma wf_RemoveServer: "wf_manager m \<Longrightarrow> wf_manager (RemoveServer m name)"
proof -
  assume wf: "wf_manager m"
  have "set (AList.delete name m) \<subseteq> set m"
    by (auto simp: AList.delete_eq)
  moreover have "distinct (map fst (AList.delete name m))"
    using wf by (simp add: wf_manager_def distinct_delete)
  ultimately show ?thesis
    using wf unfolding wf_manager_def RemoveServer_def list_all_iff by blast
qed

lemma wf_manager_names: "wf_manager m \<Longrightarrow> distinct (map (\<lambda>(k, s). srv_Name s) m)"
proof -
  assume wf: "wf_manager m"
  then have "map (\<lambda>(k, s). srv_Name s) m = map fst m"
    by (auto simp: wf_manager_def list_all_iff)
  moreover have "distinct (map fst m)" using wf by (simp add: wf_manager_def)
  ultimately show ?thesis by (simp only:)
qed

subsection \<open>Routing by the name prefix\<close>

lemma cut_first_prefixed:
  "\<not> sublist ''__'' (n @ ''_'') \<Longrightarrow> cut_first ''__'' (n @ ''__'' @ t) = Some (n, t)"
proof (induction n)
  case Nil
  then show ?case by simp
next
  case (Cons c cs)
  have np: "\<not> prefix ''__'' (c # cs @ ''__'' @ t)"
  proof
    assume "prefix ''__'' (c # cs @ ''__'' @ t)"
    then have "prefix ''__'' ((c # cs) @ ''_'')"
      by (cases cs) (auto simp: prefix_Cons)
    then have "sublist ''__'' ((c # cs) @ ''_'')"
      by (rule prefix_imp_sublist)
    with Cons.prems show False by simp
  qed
  have "\<not> sublist ''__'' (cs @ ''_'')"
    using Cons.prems by (auto simp: sublist_Cons_right)
  then have "cut_first ''__'' (cs @ ''__'' @ t) = Some (cs, t)"
    by (rule Cons.IH)
  with np show ?case by simp
qed

lemma Execute_route_prefixed:
  "\<not> Contains (n @ ''_'') ''__'' \<Longrightarrow> Execute_route (n @ ''__'' @ t) = Some (n, t)"
  using cut_first_prefixed[of n t]
  by (simp add: Execute_route_def SplitN2_def Contains_def)

lemma names_GetAllTools:
  "x \<in> set (map tool_Name (GetAllTools m)) \<Longrightarrow>
     \<exists>(k, s) \<in> set m. \<exists>t. x = srv_Name s @ ''__'' @ t"
  unfolding GetAllTools_eq
  by (fastforce simp: set_emit_tools prefixed_def)

lemma names_emit_tools:
  "x \<in> set (map tool_Name (emit_tools s ts)) \<Longrightarrow> \<exists>t. x = srv_Name s @ ''__'' @ t"
  by (auto simp: set_emit_tools prefixed_def)

lemma distinct_emit_tools:
  assumes "distinct (map tool_Name ts)"
  shows "distinct (map tool_Name (emit_tools s ts))"
proof -
  have "map tool_Name (emit_tools s ts) =
          map (\<lambda>n. srv_Name s @ ''__'' @ n)
            (map tool_Name (filter (\<lambda>t. isToolAllowed s (tool_Name t)) ts))"
    by (simp add: emit_tools_eq prefixed_def comp_def)
  moreover have "distinct (map tool_Name (filter (\<lambda>t. isToolAllowed s (tool_Name t)) ts))"
    using assms by (rule distinct_map_filter)
  ultimately show ?thesis
    by (simp add: distinct_map inj_on_def)
qed

lemma distinct_GetAllTools:
  assumes "distinct (map (\<lambda>(k, s). srv_Name s) m)"
    and "\<forall>(k, s) \<in> set m. distinct (map tool_Name (Tools s))"
    and "\<forall>(k, s) \<in> set m. \<not> Contains (srv_Name s @ ''_'') ''__''"
  shows "distinct (map tool_Name (GetAllTools m))"
  using assms
proof (induction m rule: GetAllTools.induct)
  case 1
  then show ?case by simp
next
  case (2 name server rest)
  have rest: "distinct (map tool_Name (GetAllTools rest))"
    using 2 by (cases "Connected server") simp_all
  show ?case
  proof (cases "Connected server")
    case False
    with rest show ?thesis by simp
  next
    case True
    have d1: "distinct (map tool_Name (emit_tools server (Tools server)))"
      using 2(4) by (simp add: distinct_emit_tools)
    have disj: "set (map tool_Name (emit_tools server (Tools server)))
                  \<inter> set (map tool_Name (GetAllTools rest)) = {}"
    proof (rule ccontr)
      assume "\<not> ?thesis"
      then obtain x where x1: "x \<in> set (map tool_Name (emit_tools server (Tools server)))"
        and x2: "x \<in> set (map tool_Name (GetAllTools rest))" by blast
      from names_emit_tools[OF x1] obtain t1 where e1: "x = srv_Name server @ ''__'' @ t1" ..
      from names_GetAllTools[OF x2] obtain k s t2 where
        ks: "(k, s) \<in> set rest" and e2: "x = srv_Name s @ ''__'' @ t2" by auto
      have ok1: "\<not> Contains (srv_Name server @ ''_'') ''__''" using 2(5) by simp
      have ok2: "\<not> Contains (srv_Name s @ ''_'') ''__''" using 2(5) ks by auto
      have "Execute_route x = Some (srv_Name server, t1)"
        unfolding e1 using ok1 by (rule Execute_route_prefixed)
      moreover have "Execute_route x = Some (srv_Name s, t2)"
        unfolding e2 using ok2 by (rule Execute_route_prefixed)
      ultimately have "srv_Name server = srv_Name s" by simp
      moreover have "srv_Name server \<notin> (\<lambda>(k, s). srv_Name s) ` set rest"
        using 2(3) by simp
      ultimately show False using ks by force
    qed
    from True d1 rest disj show ?thesis by simp
  qed
qed

lemma origin_GetAllTools:
  "d \<in> set (GetAllTools m) \<Longrightarrow>
     \<exists>(k, s) \<in> set m. \<exists>t \<in> set (Tools s). d = prefixed s t"
  unfolding GetAllTools_eq
  by (fastforce simp: set_emit_tools)

text \<open>
  C7, as the code has it. The prefix alone does not make the names unique: a server name
  may itself contain \<open>"__"\<close> (or end in \<open>"_"\<close>), and \<open>Execute\<close> splits at the first
  \<open>"__"\<close>. In \<open>clash_manager\<close> each server's own tool names are distinct, yet both
  servers emit \<open>"a__b__c"\<close>, and routing that name yields server \<open>a\<close> with tool
  \<open>b__c\<close>, which is not what server \<open>a__b\<close> advertised.
\<close>

theorem C7_counterexample:
  "distinct (map tool_Name (Tools (ex_server ''a'' [''b__c''] [] []))) \<and>
   distinct (map tool_Name (Tools (ex_server ''a__b'' [''c''] [] []))) \<and>
   wf_manager clash_manager \<and>
   map tool_Name (GetAllTools clash_manager) = [''a__b__c'', ''a__b__c''] \<and>
   \<not> distinct (map tool_Name (GetAllTools clash_manager)) \<and>
   tool_Name (prefixed (ex_server ''a__b'' [''c''] [] []) (ex_tool ''c'')) = ''a__b__c'' \<and>
   Execute_route ''a__b__c'' = Some (''a'', ''b__c'')"
  by (simp add: clash_manager_def ex_server_def ex_tool_def isToolAllowed_def
      wf_manager_def prefixed_def Execute_route_def SplitN2_def)

text \<open>
  C7, amended. In every manager state whose server names are pairwise distinct (which
  \<open>AddServer\<close> guarantees, see \<open>wf_manager_names\<close>), in which each server's own advertised
  tool names are distinct, and in which no server name followed by \<open>"_"\<close> contains
  \<open>"__"\<close> (that is, no server name contains \<open>"__"\<close> or ends in \<open>"_"\<close>), the names in the
  catalog of \<open>GetAllTools\<close> are pairwise distinct, and splitting an emitted name at the
  first \<open>"__"\<close> recovers the originating server name and the original tool name.
\<close>

theorem C7_names_unique_and_routable:
  assumes "distinct (map (\<lambda>(k, s). srv_Name s) m)"
    and "\<forall>(k, s) \<in> set m. distinct (map tool_Name (Tools s))"
    and "\<forall>(k, s) \<in> set m. \<not> Contains (srv_Name s @ ''_'') ''__''"
  shows "distinct (map tool_Name (GetAllTools m)) \<and>
         (\<forall>d \<in> set (GetAllTools m).
            \<exists>(k, s) \<in> set m. \<exists>t \<in> set (Tools s).
              d = prefixed s t \<and>
              Execute_route (tool_Name d) = Some (srv_Name s, tool_Name t))"
proof (intro conjI ballI)
  show "distinct (map tool_Name (GetAllTools m))"
    using assms by (rule distinct_GetAllTools)
next
  fix d assume "d \<in> set (GetAllTools m)"
  then obtain k s t where ks: "(k, s) \<in> set m" and t: "t \<in> set (Tools s)"
    and d: "d = prefixed s t"
    using origin_GetAllTools by fastforce
  have "\<not> Contains (srv_Name s @ ''_'') ''__''"
    using assms(3) ks by auto
  then have "Execute_route (srv_Name s @ ''__'' @ tool_Name t) = Some (srv_Name s, tool_Name t)"
    by (rule Execute_route_prefixed)
  then have "Execute_route (tool_Name d) = Some (srv_Name s, tool_Name t)"
    by (simp add: d prefixed_def)
  with ks t d show "\<exists>(k, s) \<in> set m. \<exists>t \<in> set (Tools s).
              d = prefixed s t \<and>
              Execute_route (tool_Name d) = Some (srv_Name s, tool_Name t)"
    by blast
qed

theorem C7_names_unique_and_routable_witness:
  "distinct (map (\<lambda>(k, s). srv_Name s) ex_manager) \<and>
   distinct (map tool_Name (GetAllTools ex_manager)) \<and>
   map tool_Name (GetAllTools ex_manager) = [''fs__read_file'', ''db__read_file''] \<and>
   Execute_route ''fs__read_file'' = Some (''fs'', ''read_file'') \<and>
   Execute_route ''db__read_file'' = Some (''db'', ''read_file'')"
proof -
  have h1: "distinct (map (\<lambda>(k, s). srv_Name s) ex_manager)"
    by (simp add: ex_manager_def ex_server_def)
  have h2: "\<forall>(k, s) \<in> set ex_manager. distinct (map tool_Name (Tools s))"
    by (simp add: ex_manager_def ex_server_def ex_tool_def)
  have h3: "\<forall>(k, s) \<in> set ex_manager. \<not> Contains (srv_Name s @ ''_'') ''__''"
    by (simp add: ex_manager_def ex_server_def Contains_simps)
  have "distinct (map tool_Name (GetAllTools ex_manager))"
    using C7_names_unique_and_routable[OF h1 h2 h3] by blast
  moreover have "map tool_Name (GetAllTools ex_manager) = [''fs__read_file'', ''db__read_file'']"
    by (simp add: ex_manager_def ex_server_def ex_tool_def isToolAllowed_def)
  moreover have "Execute_route ''fs__read_file'' = Some (''fs'', ''read_file'')"
    by (simp add: Execute_route_def SplitN2_def)
  moreover have "Execute_route ''db__read_file'' = Some (''db'', ''read_file'')"
    by (simp add: Execute_route_def SplitN2_def)
  ultimately show ?thesis using h1 by simp
qed

section \<open>Properties of the mailbox\<close>

lemma ListMessages_eq:
  "ListMessages s user = map snd (filter (\<lambda>(k, m). msg_To m = user) s)"
  by (induction s user rule: ListMessages.induct) auto

text \<open>
  C9. \<open>ListMessages user\<close> returns exactly the stored messages whose \<open>To\<close> field
  equals \<open>user\<close> (one entry per stored message, in iteration order): every returned
  message is addressed to \<open>user\<close>, and a message sent by \<open>user\<close> to someone else is
  never in the list.
\<close>

theorem C9_inbox_only:
  "ListMessages s user = map snd (filter (\<lambda>(k, m). msg_To m = user) s) \<and>
   (\<forall>m \<in> set (ListMessages s user). msg_To m = user) \<and>
   (\<forall>m. msg_From m = user \<and> msg_To m \<noteq> user \<longrightarrow> m \<notin> set (ListMessages s user))"
  by (auto simp: ListMessages_eq)

theorem C9_inbox_only_witness:
  "ListMessages ex_store ''kid'' =
     [\<lparr> msg_ID = ''id1'', msg_From = ''dad'', msg_To = ''kid'', msg_Content = ''Clean your room'',
        msg_Read = False, msg_Timestamp = 10 \<rparr>] \<and>
   \<lparr> msg_ID = ''id2'', msg_From = ''kid'', msg_To = ''dad'', msg_Content = ''Done!'',
        msg_Read = False, msg_Timestamp = 20 \<rparr> \<notin> set (ListMessages ex_store ''kid'')"
  using C9_inbox_only[of ex_store "''kid''"]
  by (simp add: ex_store_def SendMessage_def NewMemoryStore_def)

section \<open>Properties of the safety filter\<close>

lemma any_keyword_hits: "any_keyword s kws = hits s kws"
  by (induction kws) (auto simp: hits_def)

lemmas level_defs = LevelOff_def LevelLow_def LevelMedium_def LevelHigh_def

lemma isYoungUser_age:
  "13 \<le> sint year \<Longrightarrow> isYoungUser year f = (sint (year - birthYear f) < 13)"
  by (simp add: isYoungUser_def Let_def)

lemma CheckContent_blocked:
  "fst (CheckContent lower year f text) =
     (level f \<noteq> ''off'' \<and>
      (level f = ''low'' \<and> hits (lower text) adultKeywords \<or>
       (level f = ''medium'' \<or> level f = ''high'') \<and>
         (hits (lower text) adultKeywords \<or> hits (lower text) mediumBlockKeywords) \<or>
       level f = ''high'' \<and> isYoungUser year f \<and> hits (lower text) teenOnlyTopics))"
  by (auto simp: CheckContent_def shouldBlock_def level_defs any_keyword_hits Let_def)

text \<open>
  C4. \<open>CheckContent\<close> never blocks at level \<open>off\<close>; at \<open>low\<close> it blocks exactly when
  the lower-cased text contains an adult keyword; at \<open>medium\<close> exactly when it contains an
  adult or a dangerous keyword; at \<open>high\<close> exactly when it contains an adult or a dangerous
  keyword or, for a user whose age is under 13, a teen topic (dating, romance, sex,
  politics, religion). The age is the current year minus the birth year as the program
  computes it, a subtraction of 64-bit integers read as a signed value. The clock's year is
  assumed to be at least 13, so that an unset birth year (0) is not read as a young age.
\<close>

theorem C4_CheckContent:
  assumes "13 \<le> sint year"
  shows
   "(level f = ''off'' \<longrightarrow> fst (CheckContent lower year f text) = False) \<and>
    (level f = ''low'' \<longrightarrow>
       fst (CheckContent lower year f text) = hits (lower text) adultKeywords) \<and>
    (level f = ''medium'' \<longrightarrow>
       fst (CheckContent lower year f text) =
         (hits (lower text) adultKeywords \<or> hits (lower text) mediumBlockKeywords)) \<and>
    (level f = ''high'' \<longrightarrow>
       fst (CheckContent lower year f text) =
         (hits (lower text) adultKeywords \<or> hits (lower text) mediumBlockKeywords \<or>
          sint (year - birthYear f) < 13 \<and> hits (lower text) teenOnlyTopics)) \<and>
    teenOnlyTopics = [''dating'', ''romance'', ''sex'', ''politics'', ''religion'']"
  using assms
  by (simp add: CheckContent_blocked isYoungUser_age teenOnlyTopics_def)

theorem C4_CheckContent_witness:
  "13 \<le> sint (2026 :: 64 word) \<and>
   sint ((2026 :: 64 word) - 2015) < 13 \<and>
   fst (CheckContent ascii_lower 2026 \<lparr> level = ''high'', birthYear = 2015 \<rparr> ''Dating advice'') \<and>
   sint ((2026 :: 64 word) - (- 9223372036854775808)) < 13 \<and>
   fst (CheckContent ascii_lower 2026
          \<lparr> level = ''high'', birthYear = - 9223372036854775808 \<rparr> ''Dating advice'') \<and>
   \<not> sint ((2026 :: 64 word) - 1980) < 13 \<and>
   \<not> fst (CheckContent ascii_lower 2026 \<lparr> level = ''high'', birthYear = 1980 \<rparr> ''Dating advice'') \<and>
   hits (ascii_lower ''Dating advice'') teenOnlyTopics"
proof -
  have y: "13 \<le> sint (2026 :: 64 word)" by simp
  have h: "hits (ascii_lower ''Dating advice'') teenOnlyTopics"
    by (simp add: hits_def teenOnlyTopics_def Contains_simps ascii_lower_def lower_char_def)
  have na: "\<not> hits (ascii_lower ''Dating advice'') adultKeywords"
    by (simp add: hits_def adultKeywords_def Contains_simps ascii_lower_def lower_char_def)
  have nm: "\<not> hits (ascii_lower ''Dating advice'') mediumBlockKeywords"
    by (simp add: hits_def mediumBlockKeywords_def Contains_simps ascii_lower_def lower_char_def)
  have a1: "sint ((2026 :: 64 word) - 2015) < 13" by simp
  have a2: "sint ((2026 :: 64 word) - (- 9223372036854775808)) < 13" by simp
  have a3: "\<not> sint ((2026 :: 64 word) - 1980) < 13" by simp
  have b1: "fst (CheckContent ascii_lower 2026 \<lparr> level = ''high'', birthYear = 2015 \<rparr> ''Dating advice'')"
    using C4_CheckContent
      [OF y, of "\<lparr> level = ''high'', birthYear = 2015 \<rparr>" ascii_lower "''Dating advice''"] h a1
    by simp
  have b2: "fst (CheckContent ascii_lower 2026
          \<lparr> level = ''high'', birthYear = - 9223372036854775808 \<rparr> ''Dating advice'')"
    using C4_CheckContent
      [OF y, of "\<lparr> level = ''high'', birthYear = - 9223372036854775808 \<rparr>" ascii_lower
        "''Dating advice''"] h a2
    by simp
  have b3: "\<not> fst (CheckContent ascii_lower 2026 \<lparr> level = ''high'', birthYear = 1980 \<rparr> ''Dating advice'')"
    using C4_CheckContent
      [OF y, of "\<lparr> level = ''high'', birthYear = 1980 \<rparr>" ascii_lower "''Dating advice''"] na nm a3
    by simp
  from y h a1 a2 a3 b1 b2 b3 show ?thesis by blast
qed

subsection \<open>CheckResponse\<close>

lemma getBlockedMessage_nonempty: "getBlockedMessage year f reason \<noteq> []"
  by (simp add: getBlockedMessage_def)

text \<open>
  When \<open>CheckContent\<close> blocks the response, \<open>CheckResponse\<close> returns at once with
  \<open>Safe = False\<close>, \<open>Blocked = True\<close>, no \<open>NeedsApproval\<close> and a non-empty
  \<open>BlockedMessage\<close>.
\<close>

lemma CheckResponse_blocked:
  assumes "fst (CheckContent lower year f text)"
  shows "Safe (CheckResponse lower year f text) = False \<and>
         Blocked (CheckResponse lower year f text) = True \<and>
         NeedsApproval (CheckResponse lower year f text) = False \<and>
         BlockedMessage (CheckResponse lower year f text) \<noteq> []"
proof -
  from assms have off: "level f \<noteq> LevelOff"
    by (auto simp: CheckContent_def shouldBlock_def)
  obtain reason where r: "CheckContent lower year f text = (True, reason)"
    using assms by (cases "CheckContent lower year f text") auto
  show ?thesis
    using off r by (simp add: CheckResponse_def getBlockedMessage_nonempty)
qed

text \<open>
  The sensitive-topic loop is only reached by a response that \<open>CheckContent\<close> let
  through; there a hit gives \<open>NeedsApproval = True\<close> with \<open>Safe = True\<close>.
\<close>

lemma CheckResponse_flagged:
  assumes "level f = ''high''" and "isYoungUser year f"
    and "hits (lower text) sensitiveTopics"
    and "\<not> fst (CheckContent lower year f text)"
  shows "NeedsApproval (CheckResponse lower year f text) = True \<and>
         Safe (CheckResponse lower year f text) = True \<and>
         Blocked (CheckResponse lower year f text) = False"
proof -
  from assms(4) obtain reason where r: "CheckContent lower year f text = (False, reason)"
    by (cases "CheckContent lower year f text") auto
  have "CheckResponse lower year f text =
     \<lparr> Safe = True, Blocked = False, Rewrite = False, NeedsApproval = True,
       Reason = ''Sensitive topic for young user - parent review recommended'',
       Original = text, Rewritten = [], BlockedMessage = [] \<rparr>"
    using assms(1-3) r by (simp add: CheckResponse_def level_defs any_keyword_hits)
  then show ?thesis by simp
qed


text \<open>
  A sensitive topic outside the teen set does reach the loop: "A story about grief" is
  flagged for approval and stays safe.
\<close>

lemma CheckResponse_grief_flagged:
  "NeedsApproval (CheckResponse ascii_lower 2026 \<lparr> level = ''high'', birthYear = 2015 \<rparr>
                    ''A story about grief'') \<and>
   Safe (CheckResponse ascii_lower 2026 \<lparr> level = ''high'', birthYear = 2015 \<rparr>
                    ''A story about grief'') \<and>
   \<not> Blocked (CheckResponse ascii_lower 2026 \<lparr> level = ''high'', birthYear = 2015 \<rparr>
                    ''A story about grief'')"
  by (simp add: CheckResponse_def CheckContent_def shouldBlock_def level_defs isYoungUser_def
      adultKeywords_def mediumBlockKeywords_def teenOnlyTopics_def sensitiveTopics_def
      Contains_simps ascii_lower_def lower_char_def)

section \<open>Properties of the schedule provider\<close>

lemma dayMatch_Cons:
  "dayMatch lower (weekday3 wd) (d # ds) =
     ((lower d = weekday3 wd \<or>
       lower d = ''weekday'' \<and> wd \<in> {Monday, Tuesday, Wednesday, Thursday, Friday} \<or>
       lower d = ''weekend'' \<and> wd \<in> {Saturday, Sunday})
      \<or> dayMatch lower (weekday3 wd) ds)"
  by (cases wd) (auto simp: Let_def)

lemma dayMatch_day_ok:
  "dayMatch lower (weekday3 wd) ds =
     (\<exists>d \<in> set ds.
         lower d = weekday3 wd \<or>
         lower d = ''weekday'' \<and> wd \<in> {Monday, Tuesday, Wednesday, Thursday, Friday} \<or>
         lower d = ''weekend'' \<and> wd \<in> {Saturday, Sunday})"
proof (induction ds)
  case Nil
  then show ?case by simp
next
  case (Cons d ds)
  show ?case
    unfolding dayMatch_Cons Cons.IH by auto
qed

lemma matchRule_step:
  "matchRule lower t (rule # rest) =
     (if rule_matches lower t rule then Some rule else matchRule lower t rest)"
  by (auto simp: rule_matches_def day_ok_def hours_ok_def in_span_def dayMatch_day_ok Let_def
      split: option.splits prod.splits)

lemma matchRule_find: "matchRule lower t rules = List.find (rule_matches lower t) rules"
proof (induction rules)
  case Nil
  then show ?case by simp
next
  case (Cons rule rest)
  show ?case
    unfolding matchRule_step by (simp add: Cons.IH)
qed


text \<open>
  C3. For every time \<open>t\<close>, \<open>matchRule\<close> returns the first rule, in configured order,
  whose day list is empty or names the weekday of \<open>t\<close> (directly, or through the alias
  \<open>weekday\<close> for Monday to Friday or \<open>weekend\<close> for Saturday and Sunday; day names are
  compared after lower-casing) and whose hours are absent or contain \<open>t\<close> in minutes of the
  day: for \<open>start \<le> end\<close> iff \<open>start \<le> t < end\<close>, for \<open>start > end\<close> iff
  \<open>t \<ge> start\<close> or \<open>t < end\<close> (hours that do not parse as \<open>HH:MM\<close> match no time).
  If no rule matches, \<open>matchRule\<close> reports no match and \<open>resolveProvider\<close> takes the
  provider and model of the schedule's default.
\<close>

theorem C3_matchRule_first_match:
  "matchRule lower t rules = List.find (rule_matches lower t) rules \<and>
   (matchRule lower t rules = Some rule \<longleftrightarrow>
      (\<exists>i < length rules. rules ! i = rule \<and> rule_matches lower t rule \<and>
         (\<forall>j < i. \<not> rule_matches lower t (rules ! j)))) \<and>
   (matchRule lower t rules = None \<longleftrightarrow> (\<forall>r \<in> set rules. \<not> rule_matches lower t r)) \<and>
   (matchRule lower t (sched_Rules schedule) = None \<longrightarrow>
      resolveProvider lower schedule t =
        (if prefix ''schedule'' (default_Provider (sched_Default schedule))
         then Inl RecursiveSchedule
         else Inr (default_Provider (sched_Default schedule),
                   if default_Model (sched_Default schedule) = []
                   then default_Provider (sched_Default schedule)
                   else default_Model (sched_Default schedule))))"
proof (intro conjI impI)
  show "matchRule lower t rules = List.find (rule_matches lower t) rules"
    by (rule matchRule_find)
  show "matchRule lower t rules = Some rule \<longleftrightarrow>
      (\<exists>i < length rules. rules ! i = rule \<and> rule_matches lower t rule \<and>
         (\<forall>j < i. \<not> rule_matches lower t (rules ! j)))"
    unfolding matchRule_find find_Some_iff by auto
  show "matchRule lower t rules = None \<longleftrightarrow> (\<forall>r \<in> set rules. \<not> rule_matches lower t r)"
    unfolding matchRule_find find_None_iff by auto
next
  assume "matchRule lower t (sched_Rules schedule) = None"
  then show "resolveProvider lower schedule t =
        (if prefix ''schedule'' (default_Provider (sched_Default schedule))
         then Inl RecursiveSchedule
         else Inr (default_Provider (sched_Default schedule),
                   if default_Model (sched_Default schedule) = []
                   then default_Provider (sched_Default schedule)
                   else default_Model (sched_Default schedule)))"
    by (simp add: resolveProvider_def)
qed

lemmas schedule_eval =
  ex_schedule_def resolveProvider_def Parse_HHMM_def isDigit_def digit_val_def
  ascii_lower_def lower_char_def Let_def

theorem C3_matchRule_first_match_witness:
  "matchRule ascii_lower \<lparr> t_Weekday = Monday, t_Hour = 10, t_Minute = 0 \<rparr>
       (sched_Rules ex_schedule) =
     Some \<lparr> rule_Days = [''weekday''],
            rule_Hours = Some \<lparr> hours_Start = ''09:00'', hours_End = ''17:00'' \<rparr>,
            rule_Provider = ''p2'', rule_Model = ''m2'' \<rparr> \<and>
   rule_matches ascii_lower \<lparr> t_Weekday = Monday, t_Hour = 10, t_Minute = 0 \<rparr>
     \<lparr> rule_Days = [''weekday''],
       rule_Hours = Some \<lparr> hours_Start = ''09:00'', hours_End = ''17:00'' \<rparr>,
       rule_Provider = ''p2'', rule_Model = ''m2'' \<rparr> \<and>
   resolveProvider ascii_lower ex_schedule \<lparr> t_Weekday = Saturday, t_Hour = 5, t_Minute = 0 \<rparr>
     = Inr (''p3'', ''m3'') \<and>
   matchRule ascii_lower \<lparr> t_Weekday = Saturday, t_Hour = 12, t_Minute = 0 \<rparr>
       (sched_Rules ex_schedule) = None \<and>
   resolveProvider ascii_lower ex_schedule \<lparr> t_Weekday = Saturday, t_Hour = 12, t_Minute = 0 \<rparr>
     = Inr (''p1'', ''m1'')"
proof -
  let ?mon = "\<lparr> t_Weekday = Monday, t_Hour = 10, t_Minute = 0 \<rparr>"
  let ?sat = "\<lparr> t_Weekday = Saturday, t_Hour = 12, t_Minute = 0 \<rparr>"
  let ?r2 = "\<lparr> rule_Days = [''weekday''],
       rule_Hours = Some \<lparr> hours_Start = ''09:00'', hours_End = ''17:00'' \<rparr>,
       rule_Provider = ''p2'', rule_Model = ''m2'' \<rparr>"
  have m1: "matchRule ascii_lower ?mon (sched_Rules ex_schedule) = Some ?r2"
    by (simp add: schedule_eval)
  have m2: "rule_matches ascii_lower ?mon ?r2"
    using C3_matchRule_first_match[of ascii_lower ?mon "sched_Rules ex_schedule" ?r2 ex_schedule] m1
    by blast
  have m3: "matchRule ascii_lower ?sat (sched_Rules ex_schedule) = None"
    by (simp add: schedule_eval)
  have m4: "resolveProvider ascii_lower ex_schedule ?sat = Inr (''p1'', ''m1'')"
    using C3_matchRule_first_match[of ascii_lower ?sat "sched_Rules ex_schedule" ?r2 ex_schedule] m3
    by (simp add: ex_schedule_def)
  have m5: "resolveProvider ascii_lower ex_schedule
              \<lparr> t_Weekday = Saturday, t_Hour = 5, t_Minute = 0 \<rparr> = Inr (''p3'', ''m3'')"
    by (simp add: schedule_eval)
  from m1 m2 m3 m4 m5 show ?thesis by simp
qed

section \<open>Properties of the memory engine\<close>

subsection \<open>Chunking\<close>

lemma chunkSize_of_pos: "0 < chunkSize_of c"
  by (simp add: chunkSize_of_def)

lemma stride_of_pos: "0 < stride_of c"
  by (simp add: stride_of_def chunkSize_of_def)


lemma chunk_loop_step:
  assumes "i < length runes"
  shows "chunk_loop c runes i =
           take (chunkSize_of c) (drop i runes)
           # (if length runes \<le> i + chunkSize_of c then []
              else chunk_loop c runes (i + stride_of c))"
proof (cases "length runes \<le> i + chunkSize_of c")
  case True
  then have e: "chunk_end c (length runes) i = length runes"
    by (auto simp: chunk_end_def)
  have "take (length runes - i) (drop i runes) = take (chunkSize_of c) (drop i runes)"
    using True by simp
  with assms e True show ?thesis
    by (subst chunk_loop.simps) simp
next
  case False
  then have e: "chunk_end c (length runes) i = i + chunkSize_of c"
    by (auto simp: chunk_end_def)
  with assms False show ?thesis
    by (subst chunk_loop.simps) simp
qed


lemma chunk_loop_nonempty: "i < length runes \<Longrightarrow> chunk_loop c runes i \<noteq> []"
  using chunk_loop_step[of i runes c] by simp





subsection \<open>Archival\<close>

lemma fold_upsert_add: "fold upsert rs m = m ++ fold upsert rs Map.empty"
proof (induction rs arbitrary: m)
  case Nil
  then show ?case by simp
next
  case (Cons r rs)
  have "fold upsert (r # rs) m = upsert r m ++ fold upsert rs Map.empty"
    using Cons.IH[of "upsert r m"] by simp
  also have "upsert r m = m ++ upsert r Map.empty"
    by (simp add: upsert_def)
  also have "(m ++ upsert r Map.empty) ++ fold upsert rs Map.empty =
             m ++ (upsert r Map.empty ++ fold upsert rs Map.empty)"
    by simp
  also have "upsert r Map.empty ++ fold upsert rs Map.empty = fold upsert (r # rs) Map.empty"
    using Cons.IH[of "upsert r Map.empty"] by simp
  finally show ?case .
qed

lemma fold_upsert_idem: "fold upsert rs (fold upsert rs m) = fold upsert rs m"
proof -
  have "fold upsert rs (fold upsert rs m) = (m ++ fold upsert rs Map.empty) ++ fold upsert rs Map.empty"
    using fold_upsert_add[of rs "fold upsert rs m"] fold_upsert_add[of rs m] by simp
  also have "\<dots> = m ++ fold upsert rs Map.empty"
  proof -
    have idem: "x ++ x = x" for x :: "string \<rightharpoonup> 'a VectorRecord"
      by (rule ext) (simp add: map_add_def split: option.splits)
    have "(m ++ fold upsert rs Map.empty) ++ fold upsert rs Map.empty =
          m ++ (fold upsert rs Map.empty ++ fold upsert rs Map.empty)"
      by simp
    then show ?thesis by (simp only: idem)
  qed
  also have "\<dots> = fold upsert rs m"
    using fold_upsert_add[of rs m] by simp
  finally show ?thesis .
qed

lemma fold_upsert_dom: "r \<in> set rs \<Longrightarrow> vr_ID r \<in> dom (fold upsert rs m)"
proof (induction rs arbitrary: m)
  case Nil
  then show ?case by simp
next
  case (Cons a rs)
  show ?case
  proof (cases "r \<in> set rs")
    case True
    then show ?thesis using Cons.IH by simp
  next
    case False
    with Cons.prems have "r = a" by simp
    have "vr_ID a \<in> dom (upsert a m)" by (simp add: upsert_def)
    then have "vr_ID a \<in> dom (upsert a m ++ fold upsert rs Map.empty)" by simp
    then show ?thesis
      using fold_upsert_add[of rs "upsert a m"] \<open>r = a\<close> by simp
  qed
qed

lemma rest_records_ids:
  "rest_records embedder uuid ws sess ts n i cs = Some rs \<Longrightarrow>
     length rs = length cs \<and>
     (\<forall>j < length cs. vr_ID (rs ! j) = uuid (rawID ws sess ts (i + j)))"
proof (induction cs arbitrary: i rs)
  case Nil
  then show ?case by simp
next
  case (Cons c cs)
  from Cons.prems obtain v rs' where v: "embedder c = Some v"
    and rs': "rest_records embedder uuid ws sess ts n (Suc i) cs = Some rs'"
    and rs: "rs = chunk_record uuid ws sess ts n i c v # rs'"
    by (auto split: option.splits)
  from Cons.IH[OF rs'] have l: "length rs' = length cs"
    and ids: "\<forall>j < length cs. vr_ID (rs' ! j) = uuid (rawID ws sess ts (Suc i + j))"
    by simp_all
  show ?case
  proof (intro conjI allI impI)
    show "length rs = length (c # cs)" using l rs by simp
    fix j assume "j < length (c # cs)"
    then show "vr_ID (rs ! j) = uuid (rawID ws sess ts (i + j))"
      using ids rs by (cases j) (simp_all add: chunk_record_def)
  qed
qed

lemma store_rest_success:
  "store_rest ops embedder uuid coll ws sess ts n i cs db = (None, db') \<Longrightarrow>
     \<exists>rs. rest_records embedder uuid ws sess ts n i cs = Some rs"
proof (induction cs arbitrary: i db)
  case Nil
  then show ?case by simp
next
  case (Cons c cs)
  then show ?case
    by (auto split: option.splits)
qed

lemma store_rest_mem:
  "rest_records embedder uuid ws sess ts n i cs = Some rs \<Longrightarrow> db coll = Some (d, pts) \<Longrightarrow>
     store_rest mem_ops embedder uuid coll ws sess ts n i cs db =
       (None, db(coll \<mapsto> (d, fold upsert rs pts)))"
proof (induction cs arbitrary: i rs db pts)
  case Nil
  then show ?case by (simp add: fun_upd_idem)
next
  case (Cons c cs)
  from Cons.prems(1) obtain v rs' where v: "embedder c = Some v"
    and rs': "rest_records embedder uuid ws sess ts n (Suc i) cs = Some rs'"
    and rs: "rs = chunk_record uuid ws sess ts n i c v # rs'"
    by (auto split: option.splits)
  let ?r = "chunk_record uuid ws sess ts n i c v"
  let ?db = "db(coll \<mapsto> (d, upsert ?r pts))"
  have st: "db_Store mem_ops db coll ?r = Some ?db"
    using Cons.prems(2) by (simp add: mem_ops_def mem_Store_def upsert_def)
  have "?db coll = Some (d, upsert ?r pts)" by simp
  from Cons.IH[of "Suc i" rs' ?db "upsert ?r pts", OF rs' this]
  have "store_rest mem_ops embedder uuid coll ws sess ts n (Suc i) cs ?db =
          (None, ?db(coll \<mapsto> (d, fold upsert rs' (upsert ?r pts))))" .
  then show ?case
    using v st rs by (auto simp: fun_upd_def)
qed


lemma chunk_text_nonempty: "chunk_text c runes \<noteq> []"
proof (cases "length runes \<le> chunkSize_of c")
  case True
  then show ?thesis by (simp add: chunk_text_def)
next
  case False
  then have "0 < length runes" by (cases runes) simp_all
  then have "chunk_loop c runes 0 \<noteq> []" by (rule chunk_loop_nonempty)
  with False show ?thesis by (simp add: chunk_text_def)
qed

text \<open>
  The text has as many chunks as the chunking of its runes, so the number of chunks and
  the chunk indexes in the ids count code points, not bytes: the text made of \<open>u\<close>, a
  colon, a space, two e-acute (two bytes each) and a newline has eight bytes and six runes,
  and is one chunk at chunk size 6.
\<close>

lemma text_chunks_length:
  "length (text_chunks c text) = length (chunk_text c (runes_of_string text))"
  by (simp add: text_chunks_def chunk_text_def Let_def)

lemma text_chunks_nonempty: "text_chunks c text \<noteq> []"
  using chunk_text_nonempty[of c "runes_of_string text"] text_chunks_length[of c "text"]
  by (cases "text_chunks c text") auto

lemmas rune_eval =
  runes_of_string_def DecodeRune_def utf8_first_def RuneError_def Let_def

lemma runes_of_string_example:
  "runes_of_string [CHR ''u'', CHR '':'', CHR '' '', CHR 0xC3, CHR 0xA9, CHR 0xC3, CHR 0xA9, CHR 0x0A]
     = [117, 58, 32, 233, 233, 10]"
  by (simp add: rune_eval)

lemma text_chunks_example:
  "text_chunks 6 [CHR ''u'', CHR '':'', CHR '' '', CHR 0xC3, CHR 0xA9, CHR 0xC3, CHR 0xA9, CHR 0x0A]
     = [[CHR ''u'', CHR '':'', CHR '' '', CHR 0xC3, CHR 0xA9, CHR 0xC3, CHR 0xA9, CHR 0x0A]]"
  by (simp add: text_chunks_def runes_of_string_example chunkSize_of_def)

lemma ArchiveSession_noop:
  "\<not> mem_Enabled cfg \<or> build_text msgs = [] \<Longrightarrow>
     ArchiveSession uuid now (mem_manager cfg embedder) db ws sess msgs = (None, db)"
  by (auto simp: ArchiveSession_def mem_manager_def Let_def)

lemma ArchiveSession_mem_run:
  assumes en: "mem_Enabled cfg" and ne: "build_text msgs \<noteq> []"
    and rs: "rest_records embedder uuid ws sess now
               (length (text_chunks (mem_ChunkSize cfg) (build_text msgs))) 0
               (text_chunks (mem_ChunkSize cfg) (build_text msgs)) = Some rs"
    and col: "db (collection_of cfg) = Some (d, pts)"
  shows "ArchiveSession uuid now (mem_manager cfg embedder) db ws sess msgs =
           (None, db(collection_of cfg \<mapsto> (d, fold upsert rs pts)))"
proof -
  let ?chunks = "text_chunks (mem_ChunkSize cfg) (build_text msgs)"
  let ?coll = "collection_of cfg"
  obtain c0 rest where ch: "?chunks = c0 # rest"
    using text_chunks_nonempty[of "mem_ChunkSize cfg" "build_text msgs"] by (cases ?chunks) auto
  from rs obtain v rs' where v: "embedder c0 = Some v"
    and rs': "rest_records embedder uuid ws sess now (length ?chunks) 1 rest = Some rs'"
    and rseq: "rs = chunk_record uuid ws sess now (length ?chunks) 0 c0 v # rs'"
    unfolding ch by (auto split: option.splits)
  let ?r0 = "chunk_record uuid ws sess now (length ?chunks) 0 c0 v"
  let ?db2 = "db(?coll \<mapsto> (d, upsert ?r0 pts))"
  have ens: "db_EnsureCollection mem_ops db ?coll (length v) = Some db"
    using col by (simp add: mem_ops_def mem_EnsureCollection_def)
  have st: "db_Store mem_ops db ?coll ?r0 = Some ?db2"
    using col by (simp add: mem_ops_def mem_Store_def upsert_def)
  have "?db2 ?coll = Some (d, upsert ?r0 pts)" by simp
  from store_rest_mem[of embedder uuid ws sess now "length ?chunks" 1 rest rs' ?db2 ?coll d
      "upsert ?r0 pts", OF rs' this]
  have sr: "store_rest mem_ops embedder uuid ?coll ws sess now (length ?chunks) 1 rest ?db2 =
          (None, db(?coll \<mapsto> (d, fold upsert rs pts)))"
    by (simp add: rseq)
  have "ArchiveSession uuid now (mem_manager cfg embedder) db ws sess msgs =
          store_rest mem_ops embedder uuid ?coll ws sess now (length ?chunks) 1 rest ?db2"
    using en ne v ens st
    by (simp add: ArchiveSession_def mem_manager_def Let_def ch cong: option.case_cong)
  with sr show ?thesis by simp
qed

lemma ArchiveSession_mem_success:
  assumes en: "mem_Enabled cfg" and ne: "build_text msgs \<noteq> []"
    and run: "ArchiveSession uuid now (mem_manager cfg embedder) db ws sess msgs = (None, db')"
  shows "\<exists>rs d pts.
           rest_records embedder uuid ws sess now
               (length (text_chunks (mem_ChunkSize cfg) (build_text msgs))) 0
               (text_chunks (mem_ChunkSize cfg) (build_text msgs)) = Some rs \<and>
           db' (collection_of cfg) = Some (d, fold upsert rs pts) \<and>
           db' = db(collection_of cfg \<mapsto> (d, fold upsert rs pts))"
proof -
  let ?chunks = "text_chunks (mem_ChunkSize cfg) (build_text msgs)"
  let ?coll = "collection_of cfg"
  obtain c0 rest where ch: "?chunks = c0 # rest"
    using text_chunks_nonempty[of "mem_ChunkSize cfg" "build_text msgs"] by (cases ?chunks) auto
  have unf: "ArchiveSession uuid now (mem_manager cfg embedder) db ws sess msgs =
     (case embedder c0 of
        None \<Rightarrow> (Some EmbedFirstChunkFailed, db)
      | Some vector \<Rightarrow>
          (case db_EnsureCollection mem_ops db ?coll (length vector) of
             None \<Rightarrow> (Some EnsureCollectionFailed, db)
           | Some db1 \<Rightarrow>
               (case db_Store mem_ops db1 ?coll
                       (chunk_record uuid ws sess now (length ?chunks) 0 c0 vector) of
                  None \<Rightarrow> (Some (StoreFailed 0), db1)
                | Some db2 \<Rightarrow>
                    store_rest mem_ops embedder uuid ?coll ws sess now (length ?chunks) 1 rest db2)))"
    using en ne
    by (simp add: ArchiveSession_def mem_manager_def Let_def ch cong: option.case_cong)
  from run obtain v where v: "embedder c0 = Some v"
    unfolding unf by (auto split: option.splits)
  let ?r0 = "chunk_record uuid ws sess now (length ?chunks) 0 c0 v"
  obtain d pts where dp: "(case db ?coll of None \<Rightarrow> (length v, Map.empty) | Some x \<Rightarrow> x) = (d, pts)"
    by (cases "case db ?coll of None \<Rightarrow> (length v, Map.empty) | Some x \<Rightarrow> x") auto
  let ?db1 = "(case db ?coll of None \<Rightarrow> db(?coll \<mapsto> (length v, Map.empty)) | Some x \<Rightarrow> db)"
  have ens: "db_EnsureCollection mem_ops db ?coll (length v) = Some ?db1"
    by (simp add: mem_ops_def mem_EnsureCollection_def split: option.splits)
  have db1c: "?db1 ?coll = Some (d, pts)"
    using dp by (auto split: option.splits)
  let ?db2 = "?db1(?coll \<mapsto> (d, upsert ?r0 pts))"
  have st: "db_Store mem_ops ?db1 ?coll ?r0 = Some ?db2"
    using db1c by (simp add: mem_ops_def mem_Store_def upsert_def)
  from run have sr: "store_rest mem_ops embedder uuid ?coll ws sess now (length ?chunks) 1 rest ?db2
                       = (None, db')"
    unfolding unf by (simp add: v ens st)
  from store_rest_success[OF sr] obtain rs' where
    rs': "rest_records embedder uuid ws sess now (length ?chunks) 1 rest = Some rs'" ..
  have "?db2 ?coll = Some (d, upsert ?r0 pts)" by simp
  from store_rest_mem[of embedder uuid ws sess now "length ?chunks" 1 rest rs' ?db2 ?coll d
      "upsert ?r0 pts", OF rs' this] sr
  have db': "db' = ?db2(?coll \<mapsto> (d, fold upsert (?r0 # rs') pts))" by simp
  have rs: "rest_records embedder uuid ws sess now (length ?chunks) 0 ?chunks = Some (?r0 # rs')"
    unfolding ch using v rs' by (simp add: ch)
  have "db' = db(?coll \<mapsto> (d, fold upsert (?r0 # rs') pts))"
    unfolding db' by (auto split: option.splits)
  moreover from this have "db' ?coll = Some (d, fold upsert (?r0 # rs') pts)" by simp
  ultimately show ?thesis using rs by blast
qed


lemmas archive_eval =
  ArchiveSession_def collection_of_def ex_memory_def mem_manager_def mem_ops_def ex_messages_def
  text_chunks_def rune_eval chunkSize_of_def ex_embed_def mem_EnsureCollection_def mem_Store_def
  chunk_record_def rawID_def show_int_def show_nat.simps digit_char_def ex_uuid_def
  go_quot_def mem_point_def Let_def

text \<open>
  What the id derivation does give: for one and the same timestamp the ids are a function
  of workspace, session and chunk index. An archival that succeeded and is run again with
  the same timestamp upserts the same points and leaves the store unchanged, and after an
  archival of a non-empty text a point is stored under the id of every chunk. (The
  embedder is a function of the text; the store upserts by id.)
\<close>

lemma ArchiveSession_same_timestamp:
  assumes "ArchiveSession uuid ts (mem_manager cfg embedder) db0 ws sess msgs = (None, db1)"
  shows "ArchiveSession uuid ts (mem_manager cfg embedder) db1 ws sess msgs = (None, db1) \<and>
         (mem_Enabled cfg \<and> build_text msgs \<noteq> [] \<longrightarrow>
            (\<forall>i < length (text_chunks (mem_ChunkSize cfg) (build_text msgs)).
               \<exists>r. mem_point db1 (collection_of cfg) (uuid (rawID ws sess ts i)) = Some r))"
proof (cases "mem_Enabled cfg \<and> build_text msgs \<noteq> []")
  case False
  then have "\<not> mem_Enabled cfg \<or> build_text msgs = []" by blast
  then have "ArchiveSession uuid ts (mem_manager cfg embedder) db1 ws sess msgs = (None, db1)"
    by (rule ArchiveSession_noop)
  with False show ?thesis by blast
next
  case True
  then have en: "mem_Enabled cfg" and ne: "build_text msgs \<noteq> []" by simp_all
  let ?chunks = "text_chunks (mem_ChunkSize cfg) (build_text msgs)"
  from ArchiveSession_mem_success[OF en ne assms] obtain rs d pts where
    rs: "rest_records embedder uuid ws sess ts (length ?chunks) 0 ?chunks = Some rs"
    and col: "db1 (collection_of cfg) = Some (d, fold upsert rs pts)"
    by blast
  have "ArchiveSession uuid ts (mem_manager cfg embedder) db1 ws sess msgs =
          (None, db1(collection_of cfg \<mapsto> (d, fold upsert rs (fold upsert rs pts))))"
    using en ne rs col by (rule ArchiveSession_mem_run)
  also have "db1(collection_of cfg \<mapsto> (d, fold upsert rs (fold upsert rs pts))) = db1"
    using col by (simp add: fold_upsert_idem fun_upd_idem)
  finally have again: "ArchiveSession uuid ts (mem_manager cfg embedder) db1 ws sess msgs = (None, db1)" .
  have ids: "\<exists>r. mem_point db1 (collection_of cfg) (uuid (rawID ws sess ts i)) = Some r"
    if i: "i < length ?chunks" for i
  proof -
    from rest_records_ids[OF rs] have l: "length rs = length ?chunks"
      and idi: "vr_ID (rs ! i) = uuid (rawID ws sess ts i)"
      using i by simp_all
    have "rs ! i \<in> set rs" using i l by simp
    then have "vr_ID (rs ! i) \<in> dom (fold upsert rs pts)" by (rule fold_upsert_dom)
    then obtain r where "fold upsert rs pts (uuid (rawID ws sess ts i)) = Some r"
      unfolding idi by blast
    then show ?thesis using col by (simp add: mem_point_def)
  qed
  from again ids show ?thesis by blast
qed

lemma ArchiveSession_same_timestamp_example:
  "ArchiveSession ex_uuid 1000000000 ex_memory (snd ex_archive1) ''w'' ''s'' ex_messages =
     (None, snd ex_archive1) \<and>
   mem_point (snd ex_archive1) ''picoclaw'' ''08071c54-008d-3a87-a2f8-f8cdcc274c26'' \<noteq> None"
proof -
  have run: "ArchiveSession ex_uuid 1000000000
               (mem_manager \<lparr> mem_Enabled = True, mem_ChunkSize = 0, mem_CollectionName = [] \<rparr> ex_embed)
               Map.empty ''w'' ''s'' ex_messages = (None, snd ex_archive1)"
  proof -
    have "fst ex_archive1 = None" by (simp add: ex_archive1_def archive_eval)
    then show ?thesis
      by (simp add: ex_archive1_def ex_memory_def prod_eq_iff)
  qed
  have p: "mem_point (snd ex_archive1) ''picoclaw'' ''08071c54-008d-3a87-a2f8-f8cdcc274c26'' \<noteq> None"
    by (simp add: ex_archive1_def archive_eval)
  from ArchiveSession_same_timestamp[OF run] p show ?thesis
    by (simp add: ex_memory_def)
qed

text \<open>
  C2. The claim is that archival is idempotent: archiving the same workspace, session and
  messages twice produces the same point ids, so the second archival leaves the collection
  unchanged. The id is derived deterministically from the name
  \<open>"<ws>_<session>_<ts>_<chunk>"\<close>, but \<open>ts\<close> is \<open>time.Now().UnixNano()\<close>, read
  anew by every call, so the name is not stable from one call to the next. Archiving one
  user message into the empty store at clock reading \<open>1000000000\<close> and archiving the
  same message again one second later both succeed, use two different names and ids, and
  the second archival adds a point: the collection is not the one the first archival left.
\<close>

theorem C2_rearchive_new_ids:
  "fst ex_archive1 = None \<and> fst ex_archive2 = None \<and>
   rawID ''w'' ''s'' 1000000000 0 = ''w_s_1000000000_0'' \<and>
   rawID ''w'' ''s'' 2000000000 0 = ''w_s_2000000000_0'' \<and>
   ex_uuid (rawID ''w'' ''s'' 1000000000 0) \<noteq> ex_uuid (rawID ''w'' ''s'' 2000000000 0) \<and>
   mem_point (snd ex_archive1) ''picoclaw'' ''57d7d1e5-8608-312c-a0bf-6fcb64f84f9b'' = None \<and>
   mem_point (snd ex_archive2) ''picoclaw'' ''57d7d1e5-8608-312c-a0bf-6fcb64f84f9b'' =
     Some \<lparr> vr_ID = ''57d7d1e5-8608-312c-a0bf-6fcb64f84f9b'', vr_Vector = [9],
            vr_Payload = \<lparr> p_workspace_id = ''w'', p_session_id = ''s'',
              p_content = ''user: hi'' @ [CHR 0x0A], p_timestamp = 2,
              p_chunk_index = 0, p_total_chunks = 1 \<rparr> \<rparr> \<and>
   snd ex_archive2 \<noteq> snd ex_archive1"
proof -
  have a1: "fst ex_archive1 = None"
    by (simp add: ex_archive1_def archive_eval)
  have a2: "fst ex_archive2 = None"
    by (simp add: ex_archive2_def ex_archive1_def archive_eval)
  have n1: "rawID ''w'' ''s'' 1000000000 0 = ''w_s_1000000000_0''"
    by (simp add: rawID_def show_int_def show_nat.simps digit_char_def)
  have n2: "rawID ''w'' ''s'' 2000000000 0 = ''w_s_2000000000_0''"
    by (simp add: rawID_def show_int_def show_nat.simps digit_char_def)
  have u: "ex_uuid (rawID ''w'' ''s'' 1000000000 0) \<noteq> ex_uuid (rawID ''w'' ''s'' 2000000000 0)"
    unfolding n1 n2 by (simp add: ex_uuid_def)
  have p1: "mem_point (snd ex_archive1) ''picoclaw'' ''57d7d1e5-8608-312c-a0bf-6fcb64f84f9b'' = None"
    by (simp add: ex_archive1_def archive_eval)
  have p2: "mem_point (snd ex_archive2) ''picoclaw'' ''57d7d1e5-8608-312c-a0bf-6fcb64f84f9b'' =
     Some \<lparr> vr_ID = ''57d7d1e5-8608-312c-a0bf-6fcb64f84f9b'', vr_Vector = [9],
            vr_Payload = \<lparr> p_workspace_id = ''w'', p_session_id = ''s'',
              p_content = ''user: hi'' @ [CHR 0x0A], p_timestamp = 2,
              p_chunk_index = 0, p_total_chunks = 1 \<rparr> \<rparr>"
    by (simp add: ex_archive2_def ex_archive1_def archive_eval)
  have ne: "snd ex_archive2 \<noteq> snd ex_archive1"
  proof
    assume "snd ex_archive2 = snd ex_archive1"
    then have "mem_point (snd ex_archive2) ''picoclaw'' ''57d7d1e5-8608-312c-a0bf-6fcb64f84f9b'' =
               mem_point (snd ex_archive1) ''picoclaw'' ''57d7d1e5-8608-312c-a0bf-6fcb64f84f9b''"
      by simp
    with p1 p2 show False by simp
  qed
  from a1 a2 n1 n2 u p1 p2 ne show ?thesis by blast
qed

section \<open>Properties of the webhook endpoint\<close>

lemma SplitN2_sha256:
  "(length (SplitN2 sig ''='') = 2 \<and> SplitN2 sig ''='' ! 0 = ''sha256'') =
     (\<exists>v. sig = ''sha256='' @ v)"
proof
  assume a: "length (SplitN2 sig ''='') = 2 \<and> SplitN2 sig ''='' ! 0 = ''sha256''"
  then obtain b where "cut_first ''='' sig = Some (''sha256'', b)"
    by (auto simp: SplitN2_def split: option.splits)
  then have "sig = ''sha256'' @ ''='' @ b" by (rule cut_first_Some)
  then show "\<exists>v. sig = ''sha256='' @ v" by simp
next
  assume "\<exists>v. sig = ''sha256='' @ v"
  then obtain v where "sig = ''sha256='' @ v" ..
  then show "length (SplitN2 sig ''='') = 2 \<and> SplitN2 sig ''='' ! 0 = ''sha256''"
    by (simp add: SplitN2_def)
qed

lemma SplitN2_sha256_value: "SplitN2 (''sha256='' @ v) ''='' ! 1 = v"
  by (simp add: SplitN2_def)

lemma check_signature_cases:
  "check_signature mac webhook r body =
     (let sig = Header_Get (req_Header r) ''X-Hub-Signature-256'' in
      if sig = [] then Some (http_Error ''Missing signature'' 401)
      else if \<not> (\<exists>v. sig = ''sha256='' @ v)
      then Some (http_Error ''Invalid signature format'' 400)
      else if sig \<noteq> ''sha256='' @ EncodeToString (mac (wh_Secret webhook) body)
      then Some (http_Error ''Invalid signature'' 401)
      else None)"
proof -
  define sig where "sig = Header_Get (req_Header r) ''X-Hub-Signature-256''"
  consider "sig = []" | "sig \<noteq> []" "\<not> (\<exists>v. sig = ''sha256='' @ v)"
    | v where "sig = ''sha256='' @ v" by blast
  then show ?thesis
  proof cases
    case 1
    then show ?thesis by (simp add: check_signature_def sig_def[symmetric])
  next
    case 2
    then have "\<not> (length (SplitN2 sig ''='') = 2 \<and> SplitN2 sig ''='' ! 0 = ''sha256'')"
      by (simp only: SplitN2_sha256 not_False_eq_True)
    with 2 show ?thesis
      by (auto simp: check_signature_def sig_def[symmetric] Let_def)
  next
    case 3
    have "length (SplitN2 sig ''='') = 2 \<and> SplitN2 sig ''='' ! 0 = ''sha256''"
      unfolding SplitN2_sha256 using 3 by blast
    moreover have "SplitN2 sig ''='' ! 1 = v"
      unfolding 3 by (rule SplitN2_sha256_value)
    moreover have "sig \<noteq> []" using 3 by simp
    moreover have "\<exists>v. sig = ''sha256='' @ v" using 3 by blast
    ultimately show ?thesis
      unfolding check_signature_def sig_def[symmetric] Let_def
      by (simp add: 3)
  qed
qed


lemma webhookHandler_github:
  assumes "req_Method r = ''POST''"
    and "split_on CHR ''/'' (Trim (req_Path r) ''/'') = [''webhook'', wid]"
    and "webhooks wid = Some webhook"
    and "wh_Format webhook = ''github''"
    and "req_Body r = Some body"
  shows "webhookHandler processor mac buildKey webhooks r =
     (case check_signature mac webhook r body of
        Some rejected \<Rightarrow> rejected
      | None \<Rightarrow>
          \<lparr> res_Status =
              (case processor
                 (''GitHub Webhook Event: '' @ Header_Get (req_Header r) ''X-GitHub-Event''
                    @ [CHR 0x0A] @ ''Payload: '' @ body)
                 (buildKey \<lparr> sk_AgentID = (if wh_Agent webhook = [] then ''default''
                                             else wh_Agent webhook),
                              sk_Channel = ''webhook'', sk_PeerKind = ''direct'',
                              sk_PeerID = wid \<rparr>)
                 ''webhook'' wid of Inl err \<Rightarrow> 500 | Inr reply \<Rightarrow> 200),
            res_Body =
              (case processor
                 (''GitHub Webhook Event: '' @ Header_Get (req_Header r) ''X-GitHub-Event''
                    @ [CHR 0x0A] @ ''Payload: '' @ body)
                 (buildKey \<lparr> sk_AgentID = (if wh_Agent webhook = [] then ''default''
                                             else wh_Agent webhook),
                              sk_Channel = ''webhook'', sk_PeerKind = ''direct'',
                              sk_PeerID = wid \<rparr>)
                 ''webhook'' wid of Inl err \<Rightarrow> ''Internal server error'' @ [CHR 0x0A]
                                   | Inr reply \<Rightarrow> ''OK''),
            res_Forwarded =
              Some (''GitHub Webhook Event: '' @ Header_Get (req_Header r) ''X-GitHub-Event''
                      @ [CHR 0x0A] @ ''Payload: '' @ body,
                    buildKey \<lparr> sk_AgentID = (if wh_Agent webhook = [] then ''default''
                                               else wh_Agent webhook),
                               sk_Channel = ''webhook'', sk_PeerKind = ''direct'',
                               sk_PeerID = wid \<rparr>,
                    ''webhook'', wid) \<rparr>)"
  using assms
  by (simp add: webhookHandler_def Let_def split: option.splits sum.splits)

text \<open>
  C6. For a webhook configured with format \<open>github\<close>, a POST to \<open>/webhook/{id}\<close> whose
  body can be read is forwarded to the processor exactly when the \<open>X-Hub-Signature-256\<close>
  header equals \<open>"sha256="\<close> followed by the lower-case hexadecimal encoding of the
  HMAC-SHA256 of the raw body keyed by the configured secret, and it is then answered 200
  (500 if the processor fails). A missing (empty) header is rejected with 401, a header
  that is not of the form \<open>"sha256=<value>"\<close> with 400, and a well-formed header with a
  wrong value with 401.
\<close>

theorem C6_github_signature:
  assumes "req_Method r = ''POST''"
    and "split_on CHR ''/'' (Trim (req_Path r) ''/'') = [''webhook'', wid]"
    and "webhooks wid = Some webhook"
    and "wh_Format webhook = ''github''"
    and "req_Body r = Some body"
  shows
   "(res_Forwarded (webhookHandler processor mac buildKey webhooks r) \<noteq> None \<longleftrightarrow>
       Header_Get (req_Header r) ''X-Hub-Signature-256'' =
         ''sha256='' @ EncodeToString (mac (wh_Secret webhook) body)) \<and>
    (Header_Get (req_Header r) ''X-Hub-Signature-256'' =
         ''sha256='' @ EncodeToString (mac (wh_Secret webhook) body) \<longrightarrow>
       res_Status (webhookHandler processor mac buildKey webhooks r) \<in> {200, 500} \<and>
       (res_Status (webhookHandler processor mac buildKey webhooks r) = 200 \<longleftrightarrow>
          (\<exists>reply. processor
             (''GitHub Webhook Event: '' @ Header_Get (req_Header r) ''X-GitHub-Event''
                @ [CHR 0x0A] @ ''Payload: '' @ body)
             (buildKey \<lparr> sk_AgentID = (if wh_Agent webhook = [] then ''default''
                                         else wh_Agent webhook),
                          sk_Channel = ''webhook'', sk_PeerKind = ''direct'',
                          sk_PeerID = wid \<rparr>)
             ''webhook'' wid = Inr reply))) \<and>
    (Header_Get (req_Header r) ''X-Hub-Signature-256'' = [] \<longrightarrow>
       res_Status (webhookHandler processor mac buildKey webhooks r) = 401) \<and>
    (Header_Get (req_Header r) ''X-Hub-Signature-256'' \<noteq> [] \<and>
     \<not> (\<exists>v. Header_Get (req_Header r) ''X-Hub-Signature-256'' = ''sha256='' @ v) \<longrightarrow>
       res_Status (webhookHandler processor mac buildKey webhooks r) = 400) \<and>
    (\<forall>v. Header_Get (req_Header r) ''X-Hub-Signature-256'' = ''sha256='' @ v \<and>
         v \<noteq> EncodeToString (mac (wh_Secret webhook) body) \<longrightarrow>
       res_Status (webhookHandler processor mac buildKey webhooks r) = 401)"
  unfolding webhookHandler_github
      [where r = r and wid = wid and webhooks = webhooks and webhook = webhook
         and body = body, OF assms]
    check_signature_cases Let_def http_Error_def
  by (auto split: sum.splits)

lemmas webhook_eval =
  webhookHandler_def check_signature_def http_Error_def Header_Get_def SplitN2_def Trim_def
  EncodeToString_def hex_digit_def ex_request_def ex_webhooks_def ex_mac_def ex_buildKey_def
  ex_processor_def Let_def

theorem C6_github_signature_witness:
  "res_Status (webhookHandler ex_processor ex_mac ex_buildKey ex_webhooks
       (ex_request ''sha256=ab01'')) = 200 \<and>
   res_Forwarded (webhookHandler ex_processor ex_mac ex_buildKey ex_webhooks
       (ex_request ''sha256=ab01'')) \<noteq> None \<and>
   res_Status (webhookHandler ex_processor ex_mac ex_buildKey ex_webhooks
       (ex_request ''sha256=abcdef'')) = 401 \<and>
   res_Status (webhookHandler ex_processor ex_mac ex_buildKey ex_webhooks
       (ex_request ''bad:format'')) = 400 \<and>
   res_Status (webhookHandler ex_processor ex_mac ex_buildKey ex_webhooks
       (ex_request [])) = 401"
proof -
  let ?wh = "\<lparr> wh_Format = ''github'', wh_Secret = ''my_secret'', wh_Agent = ''my_agent'' \<rparr>"
  have a1: "req_Method (ex_request sig) = ''POST''" for sig
    by (simp add: ex_request_def)
  have a2: "split_on CHR ''/'' (Trim (req_Path (ex_request sig)) ''/'') = [''webhook'', ''github-id'']"
    for sig by (simp add: ex_request_def Trim_def)
  have a3: "ex_webhooks ''github-id'' = Some ?wh"
    by (simp add: ex_webhooks_def)
  have a4: "wh_Format ?wh = ''github''" by simp
  have a5: "req_Body (ex_request sig) = Some ''{}''" for sig
    by (simp add: ex_request_def)
  have e: "EncodeToString (ex_mac ''my_secret'' ''{}'') = ''ab01''"
    by (simp add: EncodeToString_def hex_digit_def ex_mac_def)
  have h: "Header_Get (req_Header (ex_request sig)) ''X-Hub-Signature-256'' = sig" for sig
    by (simp add: ex_request_def Header_Get_def)
  note inst = C6_github_signature
      [where webhooks = ex_webhooks and wid = "''github-id''" and webhook = ?wh
         and body = "''{}''" and processor = ex_processor and mac = ex_mac
         and buildKey = ex_buildKey, OF a1 a2 a3 a4 a5]
  have "res_Forwarded (webhookHandler ex_processor ex_mac ex_buildKey ex_webhooks
       (ex_request ''sha256=ab01'')) \<noteq> None"
    using inst[of "''sha256=ab01''"] by (simp add: h e)
  moreover have "res_Status (webhookHandler ex_processor ex_mac ex_buildKey ex_webhooks
       (ex_request ''sha256=ab01'')) = 200"
    using inst[of "''sha256=ab01''"] by (simp add: h e ex_processor_def)
  moreover have "res_Status (webhookHandler ex_processor ex_mac ex_buildKey ex_webhooks
       (ex_request ''sha256=abcdef'')) = 401"
    using inst[of "''sha256=abcdef''"] by (simp add: h e)
  moreover have "res_Status (webhookHandler ex_processor ex_mac ex_buildKey ex_webhooks
       (ex_request ''bad:format'')) = 400"
    using inst[of "''bad:format''"] by (simp add: h e)
  moreover have "res_Status (webhookHandler ex_processor ex_mac ex_buildKey ex_webhooks
       (ex_request [])) = 401"
    using inst[of "[]"] by (simp add: h e)
  ultimately show ?thesis by simp
qed

section \<open>Properties of the Qdrant address\<close>

lemma ParseAddress_bare_other:
  "\<not> Contains raw ''://'' \<Longrightarrow> length (split_on CHR '':'' raw) \<noteq> 2 \<Longrightarrow>
     ParseAddress url_Parse Sscanf_d raw = (raw, 6334, False)"
  by (simp add: ParseAddress_def Let_def)

lemma ParseAddress_ipv6_bare:
  "ParseAddress url_Parse Sscanf_d ''[::1]:7000'' = (''[::1]:7000'', 6334, False)"
  by (rule ParseAddress_bare_other) (simp_all add: Contains_simps)

text \<open>
  C10, as the code has it. A bare address is split at every colon and only read as
  \<open>host:port\<close> when that gives exactly two parts, so the bare IPv6 address
  \<open>[::1]:7000\<close> comes back whole as the host with the default port 6334, whatever the
  two library functions do. And a string is only handed to \<open>url.Parse\<close> when it contains
  \<open>"://"\<close>: \<open>https:foo\<close> parses as a URL with scheme \<open>https\<close>, yet \<open>useTLS\<close> is
  false for it.
\<close>

theorem C10_counterexample:
  "ParseAddress ex_url_Parse ex_Sscanf_d ''[::1]:7000'' = (''[::1]:7000'', 6334, False) \<and>
   ex_url_Parse ''https:foo'' =
     Some \<lparr> u_Scheme = ''https'', u_Hostname = [], u_Port = [] \<rparr> \<and>
   ParseAddress ex_url_Parse ex_Sscanf_d ''https:foo'' = (''https'', 6334, False)"
  by (simp add: ParseAddress_def ex_url_Parse_def ex_Sscanf_d_def Contains_simps Let_def)

text \<open>
  C10, amended. \<open>useTLS\<close> is true exactly when the string contains \<open>"://"\<close> and parses
  as a URL with scheme \<open>https\<close>. For a string that contains \<open>"://"\<close> and parses as a
  URL, the host is the URL hostname and the port is 6334 when the URL has no port, and
  otherwise follows the port rule: the port text \<open>6333\<close> is remapped to 6334 and any
  other port text gives the integer that \<open>Sscanf\<close> reads from it (6334 if it reads none).
  A string without \<open>"://"\<close> that splits at \<open>":"\<close> into exactly two parts has the first
  part as host and the port of the second part by the same rule. In every other case
  (a URL that does not parse, a bare string with no colon or more than one) the result is
  the whole string as host, port 6334 and no TLS.
\<close>

theorem C10_ParseAddress:
  assumes "ParseAddress url_Parse Sscanf_d raw = (host, port, useTLS)"
  shows
   "(useTLS \<longleftrightarrow>
       Contains raw ''://'' \<and> (\<exists>u. url_Parse raw = Some u \<and> u_Scheme u = ''https'')) \<and>
    (\<forall>u. Contains raw ''://'' \<and> url_Parse raw = Some u \<longrightarrow>
       host = u_Hostname u \<and>
       port = (if u_Port u = [] then 6334 else port_rule Sscanf_d (u_Port u))) \<and>
    (Contains raw ''://'' \<and> url_Parse raw = None \<longrightarrow> host = raw \<and> port = 6334) \<and>
    (\<forall>h p. \<not> Contains raw ''://'' \<and> split_on CHR '':'' raw = [h, p] \<longrightarrow>
       host = h \<and> port = port_rule Sscanf_d p) \<and>
    (\<not> Contains raw ''://'' \<and> length (split_on CHR '':'' raw) \<noteq> 2 \<longrightarrow>
       host = raw \<and> port = 6334)"
  using assms
  by (auto simp: ParseAddress_def port_rule_def Let_def split: option.splits if_splits)

theorem C10_ParseAddress_witness:
  "ParseAddress ex_url_Parse ex_Sscanf_d ''http://192.168.0.70:6333'' = (''192.168.0.70'', 6334, False) \<and>
   ParseAddress ex_url_Parse ex_Sscanf_d ''https://qdrant.example.com'' = (''qdrant.example.com'', 6334, True) \<and>
   ParseAddress ex_url_Parse ex_Sscanf_d ''192.168.0.70:6333'' = (''192.168.0.70'', 6334, False) \<and>
   ParseAddress ex_url_Parse ex_Sscanf_d ''http://localhost'' = (''localhost'', 6334, False) \<and>
   ParseAddress ex_url_Parse ex_Sscanf_d ''https://qdrant.example.com:8443'' = (''qdrant.example.com'', 8443, True) \<and>
   Contains ''https://qdrant.example.com:8443'' ''://'' \<and>
   port_rule ex_Sscanf_d ''8443'' = 8443"
proof -
  have e: "ParseAddress ex_url_Parse ex_Sscanf_d ''https://qdrant.example.com:8443'' =
             (''qdrant.example.com'', 8443, True)"
    by (simp add: ParseAddress_def ex_url_Parse_def ex_Sscanf_d_def Contains_simps Let_def)
  have c: "Contains ''https://qdrant.example.com:8443'' ''://''"
    by (simp add: Contains_simps)
  have p: "ex_url_Parse ''https://qdrant.example.com:8443'' =
             Some \<lparr> u_Scheme = ''https'', u_Hostname = ''qdrant.example.com'', u_Port = ''8443'' \<rparr>"
    by (simp add: ex_url_Parse_def)
  from C10_ParseAddress[OF e] c p have "(8443::int) = port_rule ex_Sscanf_d ''8443''"
    by auto
  moreover have "ParseAddress ex_url_Parse ex_Sscanf_d ''http://192.168.0.70:6333'' = (''192.168.0.70'', 6334, False)"
    by (simp add: ParseAddress_def ex_url_Parse_def ex_Sscanf_d_def Contains_simps Let_def)
  moreover have "ParseAddress ex_url_Parse ex_Sscanf_d ''https://qdrant.example.com'' = (''qdrant.example.com'', 6334, True)"
    by (simp add: ParseAddress_def ex_url_Parse_def ex_Sscanf_d_def Contains_simps Let_def)
  moreover have "ParseAddress ex_url_Parse ex_Sscanf_d ''192.168.0.70:6333'' = (''192.168.0.70'', 6334, False)"
    by (simp add: ParseAddress_def ex_url_Parse_def ex_Sscanf_d_def Contains_simps Let_def)
  moreover have "ParseAddress ex_url_Parse ex_Sscanf_d ''http://localhost'' = (''localhost'', 6334, False)"
    by (simp add: ParseAddress_def ex_url_Parse_def ex_Sscanf_d_def Contains_simps Let_def)
  ultimately show ?thesis using e c by simp
qed

end
